theory Spec2Isabelle
  imports Complex_Main
begin

section \<open>Python values and exceptions\<close>

text \<open>
  The script \<^verbatim>\<open>utility.py\<close> talks to the Netatmo web service and works on whatever
  \<^verbatim>\<open>response.json()\<close> hands back, so the data it handles is dynamically typed. A decoded
  JSON document is modelled by the datatype \<open>json\<close>; every Python operation the script
  applies to such a value is a function into \<open>py_error + 'a\<close>, where \<open>Inl e\<close>
  means that the operation raises \<open>e\<close>.

  Numbers are Python's unbounded integers. Floating point numbers are outside the model:
  the script never computes with the coordinates and sensor readings it receives, it only
  copies them.  An object is an association list that is read with \<open>map_of\<close>.
\<close>

datatype json =
    JNull
  | JBool bool
  | JInt int
  | JStr string
  | JArr "json list"
  | JObj "(string \<times> json) list"

datatype py_error =
    KeyError
  | TypeError
  | IndexError
  | ValueError
  | AttributeError
  | NameError
  | StopIteration
  | HTTPError nat
  | RequestException
  | JSONDecodeError

type_synonym 'a result = "py_error + 'a"

text \<open>
  Sequencing: \<open>and_then m f\<close> runs \<open>m\<close> and passes its value to \<open>f\<close>; an exception
  raised by \<open>m\<close> ends the computation, as it does in a block of Python statements.
\<close>

definition and_then :: "'a result \<Rightarrow> ('a \<Rightarrow> 'b result) \<Rightarrow> 'b result" where
  "and_then m f = (case m of Inl e \<Rightarrow> Inl e | Inr x \<Rightarrow> f x)"

text \<open>\<^verbatim>\<open>x[k]\<close> for a string key \<open>k\<close>: only a dict can be subscripted by a string.\<close>

fun getitem :: "json \<Rightarrow> string \<Rightarrow> json result" where
  "getitem (JObj kvs) k = (case map_of kvs k of None \<Rightarrow> Inl KeyError | Some v \<Rightarrow> Inr v)"
| "getitem _ k = Inl TypeError"

text \<open>
  \<^verbatim>\<open>x[i]\<close> for an integer literal \<open>i\<close>, negative indices counting from the end. A dict
  decoded from JSON has string keys only, so an integer key is never found.
\<close>

definition seq_index :: "'a list \<Rightarrow> int \<Rightarrow> 'a result" where
  "seq_index xs i =
     (if 0 \<le> i \<and> i < int (length xs) then Inr (xs ! nat i)
      else if i < 0 \<and> - int (length xs) \<le> i then Inr (xs ! nat (int (length xs) + i))
      else Inl IndexError)"

fun getindex :: "json \<Rightarrow> int \<Rightarrow> json result" where
  "getindex (JArr xs) i = seq_index xs i"
| "getindex (JStr s) i = map_sum id (\<lambda>c. JStr [c]) (seq_index s i)"
| "getindex (JObj kvs) i = Inl KeyError"
| "getindex _ i = Inl TypeError"

text \<open>\<^verbatim>\<open>for x in v\<close>: a list gives its elements, a dict its keys, a string its characters.\<close>

fun py_iter :: "json \<Rightarrow> json list result" where
  "py_iter (JArr xs) = Inr xs"
| "py_iter (JObj kvs) = Inr (map (\<lambda>kv. JStr (fst kv)) kvs)"
| "py_iter (JStr s) = Inr (map (\<lambda>c. JStr [c]) s)"
| "py_iter _ = Inl TypeError"

text \<open>Truth value of an object, as \<^verbatim>\<open>not v\<close> and \<^verbatim>\<open>if v\<close> test it.\<close>

fun truthy :: "json \<Rightarrow> bool" where
  "truthy JNull = False"
| "truthy (JBool b) = b"
| "truthy (JInt i) = (i \<noteq> 0)"
| "truthy (JStr s) = (s \<noteq> [])"
| "truthy (JArr xs) = (xs \<noteq> [])"
| "truthy (JObj kvs) = (kvs \<noteq> [])"

text \<open>\<^verbatim>\<open>s.startswith(p)\<close> is a method of strings; any other value has no such attribute.\<close>

fun startswith :: "json \<Rightarrow> string \<Rightarrow> bool result" where
  "startswith (JStr s) p = Inr (take (length p) s = p)"
| "startswith _ p = Inl AttributeError"

fun is_substring :: "string \<Rightarrow> string \<Rightarrow> bool" where
  "is_substring p [] = (p = [])"
| "is_substring p (c # cs) = (take (length p) (c # cs) = p \<or> is_substring p cs)"

text \<open>
  \<^verbatim>\<open>k in v\<close> for a string \<open>k\<close>: key membership for a dict, element membership for a
  list, substring test for a string; other values are not containers.
\<close>

fun contains :: "json \<Rightarrow> string \<Rightarrow> bool result" where
  "contains (JObj kvs) k = Inr (k \<in> fst ` set kvs)"
| "contains (JArr xs) k = Inr (JStr k \<in> set xs)"
| "contains (JStr s) k = Inr (is_substring k s)"
| "contains _ k = Inl TypeError"

text \<open>
  Integers as Python sees them: \<^verbatim>\<open>bool\<close> is a subclass of \<^verbatim>\<open>int\<close>. \<open>add_int\<close> is
  \<^verbatim>\<open>v + n\<close> for an integer \<open>n\<close>.
\<close>

fun as_int :: "json \<Rightarrow> int option" where
  "as_int (JInt i) = Some i"
| "as_int (JBool b) = Some (if b then 1 else 0)"
| "as_int _ = None"

definition add_int :: "json \<Rightarrow> int \<Rightarrow> int result" where
  "add_int v n = (case as_int v of None \<Rightarrow> Inl TypeError | Some i \<Rightarrow> Inr (i + n))"

subsection \<open>Dictionaries keyed by decoded values\<close>

text \<open>
  A Python dict keeps insertion order; storing under a key that is already present
  replaces the value and keeps the old key. Lists and dicts are unhashable, and
  \<^verbatim>\<open>True == 1\<close>, \<^verbatim>\<open>False == 0\<close> as keys.
\<close>

fun hashable :: "json \<Rightarrow> bool" where
  "hashable (JArr xs) = False"
| "hashable (JObj kvs) = False"
| "hashable _ = True"

fun key_norm :: "json \<Rightarrow> json" where
  "key_norm (JBool b) = JInt (if b then 1 else 0)"
| "key_norm v = v"

definition key_eq :: "json \<Rightarrow> json \<Rightarrow> bool" where
  "key_eq a b = (key_norm a = key_norm b)"

fun dict_store :: "(json \<times> 'v) list \<Rightarrow> json \<Rightarrow> 'v \<Rightarrow> (json \<times> 'v) list" where
  "dict_store [] k v = [(k, v)]"
| "dict_store ((k', v') # d) k v =
     (if key_eq k' k then (k', v) # d else (k', v') # dict_store d k v)"

definition setitem :: "(json \<times> 'v) list \<Rightarrow> json \<Rightarrow> 'v \<Rightarrow> (json \<times> 'v) list result" where
  "setitem d k v = (if hashable k then Inr (dict_store d k v) else Inl TypeError)"

section \<open>The outside world\<close>

text \<open>
  What the script does to its surroundings is recorded in a \<open>world\<close>: the requests it has
  sent, the rows of the CSV files it has written (a file is the list of its records, each a
  list of fields, as \<^verbatim>\<open>csv.writer\<close> stores and \<^verbatim>\<open>csv.reader\<close> returns them), the lines
  printed, and the seconds slept.

  The web service is a script of replies, one for each request still to come. A reply is
  either no reply at all (\<^verbatim>\<open>requests\<close> raises a \<^verbatim>\<open>RequestException\<close> such as a connection
  error) or a response with a status code, a text and, when the text is valid JSON, its
  decoded value. A function that needs a reply when the script has none left has no
  result in the model (\<open>None\<close>).
\<close>

datatype http_reply =
    NoReply
  | Reply (status_code: nat) (response_text: string) (payload: "json option")

datatype request =
    GetPublicData string real real real real
  | GetMeasure string string string string string int int int

type_synonym csv_row = "string list"

record world =
  sent :: "request list"
  files :: "string \<Rightarrow> csv_row list"
  stdout :: "string list"
  slept :: nat

text \<open>\<^verbatim>\<open>response.raise_for_status()\<close> and \<^verbatim>\<open>response.json()\<close>.\<close>

definition raise_for_status :: "nat \<Rightarrow> unit result" where
  "raise_for_status st = (if 400 \<le> st \<and> st < 600 then Inl (HTTPError st) else Inr ())"

definition response_json :: "json option \<Rightarrow> json result" where
  "response_json p = (case p of None \<Rightarrow> Inl JSONDecodeError | Some j \<Rightarrow> Inr j)"

subsection \<open>Decimal text of integers\<close>

definition digit_char :: "nat \<Rightarrow> char" where
  "digit_char d = ''0123456789'' ! d"

fun digits_of :: "nat \<Rightarrow> string" where
  "digits_of n = (if n < 10 then [digit_char n] else digits_of (n div 10) @ [digit_char (n mod 10)])"

declare digits_of.simps [simp del]

definition str_int :: "int \<Rightarrow> string" where
  "str_int i = (if i < 0 then CHR ''-'' # digits_of (nat (- i)) else digits_of (nat i))"

section \<open>Station Locator: \<^verbatim>\<open>get_ids\<close>\<close>

record station_info =
  module_names :: "json list"
  location :: json
  altitude :: json
  city :: json
  full_modules :: json

type_synonym ids = "(json \<times> station_info) list"

text \<open>The comprehension \<^verbatim>\<open>[n for n in station['modules'] if n.startswith('02:')]\<close>.\<close>

fun rain_modules :: "json list \<Rightarrow> json list result" where
  "rain_modules [] = Inr []"
| "rain_modules (n # ns) =
     and_then (startswith n ''02:'') (\<lambda>b.
     and_then (rain_modules ns) (\<lambda>ms.
     Inr (if b then n # ms else ms)))"

text \<open>One pass of the body of \<^verbatim>\<open>for station in data\<close> (lines 119 to 128).\<close>

definition station_step :: "ids \<Rightarrow> json \<Rightarrow> ids result" where
  "station_step ids station =
     and_then (getitem station ''_id'') (\<lambda>sid.
     and_then (getitem station ''modules'') (\<lambda>mods.
     and_then (py_iter mods) (\<lambda>ns.
     and_then (rain_modules ns) (\<lambda>modl.
     and_then (getitem station ''place'') (\<lambda>place.
     and_then (getitem place ''location'') (\<lambda>loc.
     and_then (getitem place ''altitude'') (\<lambda>alt.
     and_then (contains place ''city'') (\<lambda>has_city.
     and_then (if has_city then getitem place ''city'' else Inr (JStr ''no city'')) (\<lambda>cty.
     setitem ids sid
       \<lparr>module_names = modl, location = loc, altitude = alt, city = cty,
        full_modules = mods\<rparr>)))))))))"

fun stations_loop :: "ids \<Rightarrow> json list \<Rightarrow> ids result" where
  "stations_loop ids [] = Inr ids"
| "stations_loop ids (station # rest) =
     and_then (station_step ids station) (\<lambda>ids'. stations_loop ids' rest)"

text \<open>
  The \<^verbatim>\<open>try\<close> block of one attempt (lines 114 to 133), given the reply to the request:
  the stations of the reply are added to \<open>ids\<close>, and an empty \<open>ids\<close> raises
  \<^verbatim>\<open>NameError\<close>.
\<close>

definition attempt :: "ids \<Rightarrow> http_reply \<Rightarrow> ids result" where
  "attempt ids r =
     (case r of
        NoReply \<Rightarrow> Inl RequestException
      | Reply st txt p \<Rightarrow>
          and_then (raise_for_status st) (\<lambda>_.
          and_then (response_json p) (\<lambda>j.
          and_then (getitem j ''body'') (\<lambda>data.
          and_then (py_iter data) (\<lambda>stations.
          and_then (stations_loop ids stations) (\<lambda>ids'.
          if length ids' = 0 then Inl NameError else Inr ids'))))))"

text \<open>
  The loop \<^verbatim>\<open>while NoResponse\<close> with its two handlers. \<open>ids\<close> and \<open>retry_count\<close> are the
  variables of the source; the first argument is the script of replies still to come.
  \<^verbatim>\<open>HTTPError\<close> is handled after printing status and text, \<^verbatim>\<open>NameError\<close> silently; any
  other exception leaves the function.
\<close>

fun get_ids_loop ::
  "http_reply list \<Rightarrow> request \<Rightarrow> ids \<Rightarrow> nat \<Rightarrow> world \<Rightarrow> (ids result \<times> world) option" where
  "get_ids_loop [] rq ids retry_count w = None"
| "get_ids_loop (r # rs) rq ids retry_count w =
     (let w1 = w\<lparr>sent := sent w @ [rq]\<rparr> in
      case attempt ids r of
        Inr ids' \<Rightarrow> Some (Inr ids', w1)
      | Inl (HTTPError st) \<Rightarrow>
          (let w2 = w1\<lparr>stdout := stdout w1 @ [digits_of st @ '' '' @ response_text r]\<rparr> in
           if retry_count < 5 then get_ids_loop rs rq ids (retry_count + 1) w2
           else Some (Inr [], w2))
      | Inl NameError \<Rightarrow>
          (if retry_count < 5 then get_ids_loop rs rq ids (retry_count + 1) w1
           else Some (Inr [], w1))
      | Inl e \<Rightarrow> Some (Inl e, w1))"

definition get_ids ::
  "http_reply list \<Rightarrow> string \<Rightarrow> real \<Rightarrow> real \<Rightarrow> real \<Rightarrow> real \<Rightarrow> world \<Rightarrow> (ids result \<times> world) option" where
  "get_ids upstream access_token lat_ne lon_ne lat_sw lon_sw w =
     get_ids_loop upstream (GetPublicData access_token lat_ne lon_ne lat_sw lon_sw) [] 0 w"


text \<open>A world in which nothing has happened yet.\<close>

definition initial_world :: world where
  "initial_world = \<lparr>sent = [], files = (\<lambda>name. []), stdout = [], slept = 0\<rparr>"

subsection \<open>Failing and successful attempts\<close>

text \<open>
  An attempt fails when the reply is an HTTP error (status 400 to 599, where
  \<^verbatim>\<open>raise_for_status\<close> raises) or a JSON object whose \<^verbatim>\<open>body\<close> is the empty list.
\<close>

definition failed_attempt :: "http_reply \<Rightarrow> bool" where
  "failed_attempt r =
     (case r of
        NoReply \<Rightarrow> False
      | Reply st txt p \<Rightarrow>
          (400 \<le> st \<and> st < 600) \<or>
          (case p of Some (JObj kvs) \<Rightarrow> map_of kvs ''body'' = Some (JArr []) | _ \<Rightarrow> False))"

text \<open>
  A station as the service documents it: an object with a hashable \<^verbatim>\<open>_id\<close>, a list of
  module names under \<^verbatim>\<open>modules\<close>, and a \<^verbatim>\<open>place\<close> that has a location and an
  altitude. \<open>station_id\<close> reads the identifier; \<open>dict_keys\<close> lists the keys of a
  dictionary up to Python's equality of keys.
\<close>

fun is_str :: "json \<Rightarrow> bool" where
  "is_str (JStr s) = True"
| "is_str _ = False"

definition station_id :: "json \<Rightarrow> json" where
  "station_id station = (case getitem station ''_id'' of Inr v \<Rightarrow> v | Inl e \<Rightarrow> JNull)"

definition station_ok :: "json \<Rightarrow> bool" where
  "station_ok station =
     (case station of
        JObj kvs \<Rightarrow>
          (case map_of kvs ''_id'' of Some sid \<Rightarrow> hashable sid | None \<Rightarrow> False) \<and>
          (case map_of kvs ''modules'' of Some (JArr ms) \<Rightarrow> list_all is_str ms | _ \<Rightarrow> False) \<and>
          (case map_of kvs ''place'' of
             Some (JObj pl) \<Rightarrow> map_of pl ''location'' \<noteq> None \<and> map_of pl ''altitude'' \<noteq> None
           | _ \<Rightarrow> False)
      | _ \<Rightarrow> False)"

definition dict_keys :: "(json \<times> 'v) list \<Rightarrow> json list" where
  "dict_keys d = map (\<lambda>kv. key_norm (fst kv)) d"

text \<open>
  Three stations of a reply for the examples below; the second and third share their
  identifier.
\<close>

definition example_stations :: "json list" where
  "example_stations =
     [JObj [(''_id'', JStr ''70:ee:50:00:00:01''),
            (''modules'', JArr [JStr ''02:00:00:00:00:01'', JStr ''05:00:00:00:00:01'']),
            (''place'', JObj [(''location'', JArr [JInt 9, JInt 48]), (''altitude'', JInt 300)])],
      JObj [(''_id'', JStr ''70:ee:50:00:00:02''),
            (''modules'', JArr []),
            (''place'', JObj [(''location'', JArr [JInt 9, JInt 48]), (''altitude'', JInt 310),
                              (''city'', JStr ''Ulm'')])],
      JObj [(''_id'', JStr ''70:ee:50:00:00:02''),
            (''modules'', JArr [JStr ''02:00:00:00:00:02'']),
            (''place'', JObj [(''location'', JArr [JInt 9, JInt 48]), (''altitude'', JInt 310)])]]"

text \<open>Seven replies, each of them a failure: three HTTP errors and four empty station lists.\<close>

definition example_failures :: "http_reply list" where
  "example_failures =
     [Reply 503 ''busy'' None,
      Reply 200 ''{}'' (Some (JObj [(''body'', JArr [])])),
      Reply 403 ''forbidden'' (Some (JObj [(''error'', JStr ''forbidden'')])),
      Reply 200 ''{}'' (Some (JObj [(''body'', JArr [])])),
      Reply 200 ''{}'' (Some (JObj [(''body'', JArr [])])),
      Reply 500 [] None,
      Reply 200 ''{}'' (Some (JObj [(''body'', JArr [])]))]"

subsection \<open>Basic facts\<close>

lemma and_then_Inl [simp]: "and_then (Inl e) f = Inl e"
  by (simp add: and_then_def)

lemma and_then_Inr [simp]: "and_then (Inr x) f = f x"
  by (simp add: and_then_def)

lemma attempt_failed:
  assumes "failed_attempt r"
  shows "(\<exists>st. attempt [] r = Inl (HTTPError st)) \<or> attempt [] r = Inl NameError"
  using assms
  by (auto simp: failed_attempt_def attempt_def raise_for_status_def response_json_def
      split: http_reply.splits option.splits json.splits)

lemma get_ids_loop_failures:
  assumes "list_all failed_attempt rs" and "n + length rs = 6" and "n \<le> 5"
  shows "\<exists>w'. get_ids_loop (rs @ later) rq [] n w = Some (Inr [], w') \<and>
           sent w' = sent w @ replicate (length rs) rq \<and> files w' = files w \<and> slept w' = slept w"
  using assms
proof (induction rs arbitrary: n w)
  case Nil
  then show ?case by simp
next
  case (Cons r rs)
  from Cons.prems have f: "failed_attempt r" and rest: "list_all failed_attempt rs" by simp_all
  show ?case
  proof (cases "rs = []")
    case True
    with Cons.prems have n: "n = 5" by simp
    from attempt_failed [OF f] show ?thesis
      using True n by (auto simp: Let_def)
  next
    case False
    with Cons.prems have n: "n < 5" "Suc n + length rs = 6" "Suc n \<le> 5" by (cases rs; simp)+
    from attempt_failed [OF f] show ?thesis
    proof
      assume "\<exists>st. attempt [] r = Inl (HTTPError st)"
      then obtain st where a: "attempt [] r = Inl (HTTPError st)" ..
      from Cons.IH [OF rest n(2) n(3), of "w\<lparr>sent := sent w @ [rq], stdout := stdout w @ [digits_of st @ '' '' @ response_text r]\<rparr>"]
      show ?thesis using a n(1) by (auto simp: Let_def replicate_append_same)
    next
      assume a: "attempt [] r = Inl NameError"
      from Cons.IH [OF rest n(2) n(3), of "w\<lparr>sent := sent w @ [rq]\<rparr>"]
      show ?thesis using a n(1) by (auto simp: Let_def replicate_append_same)
    qed
  qed
qed

lemma get_ids_loop_short:
  assumes "list_all failed_attempt rs" and "n + length rs < 6"
  shows "get_ids_loop rs rq [] n w = None"
  using assms
proof (induction rs arbitrary: n w)
  case Nil
  then show ?case by simp
next
  case (Cons r rs)
  from Cons.prems have f: "failed_attempt r" and rest: "list_all failed_attempt rs" 
    and n: "n < 5" "Suc n + length rs < 6" by simp_all
  from attempt_failed [OF f] show ?case
    using Cons.IH [OF rest n(2)] n(1) by (auto simp: Let_def)
qed

lemma dict_keys_store:
  "set (dict_keys (dict_store d k v)) = insert (key_norm k) (set (dict_keys d))"
proof (induction d)
  case Nil
  show ?case by (simp add: dict_keys_def)
next
  case (Cons p d)
  show ?case
  proof (cases "key_eq (fst p) k")
    case True
    then have "dict_store (p # d) k v = (fst p, v) # d" by (cases p) simp
    with True show ?thesis by (auto simp: dict_keys_def key_eq_def)
  next
    case False
    then have "dict_store (p # d) k v = p # dict_store d k v" by (cases p) simp
    then have "set (dict_keys (dict_store (p # d) k v)) =
        insert (key_norm (fst p)) (set (dict_keys (dict_store d k v)))"
      by (simp add: dict_keys_def)
    with Cons.IH show ?thesis by (auto simp: dict_keys_def)
  qed
qed

lemma contains_obj: "contains (JObj kvs) k = Inr (map_of kvs k \<noteq> None)"
  by (simp add: map_of_eq_None_iff)

lemma dict_keys_distinct:
  "distinct (dict_keys d) \<Longrightarrow> distinct (dict_keys (dict_store d k v))"
proof (induction d)
  case Nil
  then show ?case by (simp add: dict_keys_def)
next
  case (Cons p d)
  obtain k' v' where p: "p = (k', v')" by (cases p)
  from Cons.prems have d: "distinct (dict_keys d)" and k': "key_norm k' \<notin> set (dict_keys d)"
    by (simp_all add: dict_keys_def p)
  show ?case
  proof (cases "key_eq k' k")
    case True
    with Cons.prems show ?thesis by (simp add: dict_keys_def p)
  next
    case False
    have "set (dict_keys (dict_store d k v)) = insert (key_norm k) (set (dict_keys d))"
      by (rule dict_keys_store)
    with False k' Cons.IH [OF d] show ?thesis
      by (auto simp: dict_keys_def p key_eq_def)
  qed
qed

lemma rain_modules_strings:
  "list_all is_str ns \<Longrightarrow> \<exists>ms. rain_modules ns = Inr ms"
proof (induction ns)
  case Nil
  then show ?case by simp
next
  case (Cons n ns)
  then obtain ms where "rain_modules ns = Inr ms" by auto
  moreover from Cons.prems obtain s where "n = JStr s" by (cases n) simp_all
  ultimately show ?case by simp
qed

lemma station_step_ok:
  assumes "station_ok station"
  shows "\<exists>info. station_step ids station = Inr (dict_store ids (station_id station) info)"
proof -
  from assms obtain kvs where st: "station = JObj kvs" by (cases station) (simp_all add: station_ok_def)
  from assms st obtain sid where sid: "map_of kvs ''_id'' = Some sid" "hashable sid"
    by (auto simp: station_ok_def split: option.splits)
  from assms st obtain ms where ms: "map_of kvs ''modules'' = Some (JArr ms)" "list_all is_str ms"
    by (auto simp: station_ok_def split: option.splits json.splits)
  from assms st obtain pl loc alt where pl: "map_of kvs ''place'' = Some (JObj pl)"
    "map_of pl ''location'' = Some loc" "map_of pl ''altitude'' = Some alt"
    by (auto simp: station_ok_def split: option.splits json.splits)
  from rain_modules_strings [OF ms(2)] obtain rm where rm: "rain_modules ms = Inr rm" ..
  show ?thesis
    using st sid ms pl rm
    by (cases "map_of pl ''city''")
      (auto simp add: station_step_def station_id_def setitem_def contains_obj simp del: contains.simps)
qed

lemma stations_loop_ok:
  assumes "list_all station_ok stations" and "distinct (dict_keys ids)"
  shows "\<exists>ids'. stations_loop ids stations = Inr ids' \<and> distinct (dict_keys ids') \<and>
           set (dict_keys ids') = set (dict_keys ids) \<union> key_norm ` station_id ` set stations"
  using assms
proof (induction stations arbitrary: ids)
  case Nil
  then show ?case by simp
next
  case (Cons s stations)
  from Cons.prems have ok: "station_ok s" and rest: "list_all station_ok stations" by simp_all
  from station_step_ok [OF ok] obtain info
    where step: "station_step ids s = Inr (dict_store ids (station_id s) info)" ..
  let ?ids1 = "dict_store ids (station_id s) info"
  have d1: "distinct (dict_keys ?ids1)" using Cons.prems(2) by (rule dict_keys_distinct)
  from Cons.IH [OF rest d1] obtain ids' where
    loop: "stations_loop ?ids1 stations = Inr ids'" and d': "distinct (dict_keys ids')" and
    keys: "set (dict_keys ids') = set (dict_keys ?ids1) \<union> key_norm ` station_id ` set stations"
    by blast
  from keys have "set (dict_keys ids') = set (dict_keys ids) \<union> key_norm ` station_id ` set (s # stations)"
    by (simp add: dict_keys_store)
  with step loop d' show ?case by simp
qed

subsection \<open>Six failures exhaust the retry budget\<close>

text \<open>
  C1. If each of the first six replies is a failure (an HTTP error, or a well-formed
  response whose station list is empty), \<^verbatim>\<open>get_ids\<close> returns the empty mapping and has
  sent exactly six requests (the first attempt and five retries), writing no file. The
  sixth failure is the one that ends the loop: after the first five replies alone the
  function has not returned yet.
\<close>

theorem get_ids_six_failures:
  assumes "6 \<le> length upstream" and "list_all failed_attempt (take 6 upstream)"
  shows "(\<exists>w'. get_ids upstream access_token lat_ne lon_ne lat_sw lon_sw w = Some (Inr [], w') \<and>
           sent w' = sent w @ replicate 6 (GetPublicData access_token lat_ne lon_ne lat_sw lon_sw) \<and>
           files w' = files w) \<and>
         get_ids (take 5 upstream) access_token lat_ne lon_ne lat_sw lon_sw w = None"
proof
  have len: "0 + length (take 6 upstream) = 6" using assms(1) by simp
  from get_ids_loop_failures [OF assms(2) len, of "drop 6 upstream"]
  show "\<exists>w'. get_ids upstream access_token lat_ne lon_ne lat_sw lon_sw w = Some (Inr [], w') \<and>
           sent w' = sent w @ replicate 6 (GetPublicData access_token lat_ne lon_ne lat_sw lon_sw) \<and>
           files w' = files w"
    using assms(1) by (auto simp: get_ids_def)
  have "list_all failed_attempt (take 5 upstream)"
    using assms(2) set_take_subset_set_take [of 5 6 upstream] by (auto simp: list_all_iff)
  then show "get_ids (take 5 upstream) access_token lat_ne lon_ne lat_sw lon_sw w = None"
    unfolding get_ids_def by (rule get_ids_loop_short) simp
qed

theorem get_ids_six_failures_witness:
  "6 \<le> length example_failures \<and> list_all failed_attempt (take 6 example_failures) \<and>
   (\<exists>w'. get_ids example_failures ''token'' 49 9 48 8 initial_world = Some (Inr [], w') \<and>
      sent w' = replicate 6 (GetPublicData ''token'' 49 9 48 8)) \<and>
   get_ids (take 5 example_failures) ''token'' 49 9 48 8 initial_world = None"
proof -
  have len: "6 \<le> length example_failures"
    by (simp add: example_failures_def)
  have fails: "list_all failed_attempt (take 6 example_failures)"
    by (simp add: example_failures_def failed_attempt_def)
  from get_ids_six_failures [OF len fails, of "''token''" 49 9 48 8 initial_world]
  show ?thesis using len fails by (auto simp: initial_world_def)
qed

subsection \<open>A first success ends the loop\<close>

text \<open>
  C2. If the first reply is an HTTP success whose \<^verbatim>\<open>body\<close> is a non-empty list of
  stations, \<^verbatim>\<open>get_ids\<close> sends exactly one request and returns at once; the keys of the
  mapping it returns are the identifiers of the stations of that reply, each once, so the
  size of the mapping is the number of distinct identifiers.
\<close>

theorem get_ids_first_success:
  assumes "\<not> (400 \<le> st \<and> st < 600)"
    and "map_of kvs ''body'' = Some (JArr stations)"
    and "stations \<noteq> []"
    and "list_all station_ok stations"
  shows "\<exists>ids w'.
           get_ids (Reply st txt (Some (JObj kvs)) # later)
             access_token lat_ne lon_ne lat_sw lon_sw w = Some (Inr ids, w') \<and>
           sent w' = sent w @ [GetPublicData access_token lat_ne lon_ne lat_sw lon_sw] \<and>
           distinct (dict_keys ids) \<and>
           set (dict_keys ids) = key_norm ` station_id ` set stations \<and>
           length ids = card (key_norm ` station_id ` set stations)"
proof -
  from stations_loop_ok [OF assms(4), of "[]"] obtain ids where
    loop: "stations_loop [] stations = Inr ids" and d: "distinct (dict_keys ids)" and
    keys: "set (dict_keys ids) = key_norm ` station_id ` set stations"
    by (auto simp: dict_keys_def)
  from keys assms(3) have ne: "ids \<noteq> []" by (auto simp: dict_keys_def)
  have "length ids = length (dict_keys ids)" by (simp add: dict_keys_def)
  also have "\<dots> = card (set (dict_keys ids))" using d by (simp add: distinct_card)
  finally have len: "length ids = card (key_norm ` station_id ` set stations)" using keys by simp
  have "attempt [] (Reply st txt (Some (JObj kvs))) = Inr ids"
    using assms(1,2) loop ne by (simp add: attempt_def raise_for_status_def response_json_def)
  then show ?thesis
    using d keys len by (simp add: get_ids_def Let_def)
qed

theorem get_ids_first_success_witness:
  "\<exists>ids w'.
     get_ids [Reply 200 [] (Some (JObj [(''body'', JArr example_stations)]))]
       ''token'' 49 9 48 8 initial_world = Some (Inr ids, w') \<and>
     sent w' = [GetPublicData ''token'' 49 9 48 8] \<and> length ids = 2"
proof -
  have ok: "list_all station_ok example_stations"
    by (simp add: example_stations_def station_ok_def)
  have ne: "example_stations \<noteq> []"
    by (simp add: example_stations_def)
  have n: "card (key_norm ` station_id ` set example_stations) = 2"
    by (simp add: example_stations_def station_id_def)
  have "\<exists>ids w'.
     get_ids (Reply 200 [] (Some (JObj [(''body'', JArr example_stations)])) # [])
       ''token'' 49 9 48 8 initial_world = Some (Inr ids, w') \<and>
     sent w' = sent initial_world @ [GetPublicData ''token'' 49 9 48 8] \<and>
     distinct (dict_keys ids) \<and>
     set (dict_keys ids) = key_norm ` station_id ` set example_stations \<and>
     length ids = card (key_norm ` station_id ` set example_stations)"
    by (rule get_ids_first_success [OF _ _ ne ok]) simp_all
  then obtain ids w' where
    "get_ids [Reply 200 [] (Some (JObj [(''body'', JArr example_stations)]))]
       ''token'' 49 9 48 8 initial_world = Some (Inr ids, w')"
    "sent w' = sent initial_world @ [GetPublicData ''token'' 49 9 48 8]"
    "length ids = card (key_norm ` station_id ` set example_stations)"
    by blast
  with n show ?thesis by (simp add: initial_world_def)
qed

section \<open>Library functions the fetcher relies on\<close>

subsection \<open>Calendar dates\<close>

text \<open>
  \<^verbatim>\<open>datetime.utcfromtimestamp(t).strftime('%Y%m%d%H%M')\<close> turns seconds since the epoch into
  a proleptic Gregorian date in UTC. \<open>civil_from_days\<close> and \<open>days_from_civil\<close> convert
  between a day number (day 0 is 1970-01-01) and year, month, day; integer division
  rounds down, as Python's does.
\<close>

record datetime =
  year :: int
  month :: int
  day :: int
  hour :: int
  minute :: int
  second :: int

definition civil_from_days :: "int \<Rightarrow> int \<times> int \<times> int" where
  "civil_from_days z0 =
     (let z = z0 + 719468;
          era = z div 146097;
          doe = z mod 146097;
          yoe = (doe - doe div 1460 + doe div 36524 - doe div 146096) div 365;
          doy = doe - (365 * yoe + yoe div 4 - yoe div 100);
          mp = (5 * doy + 2) div 153;
          d = doy - (153 * mp + 2) div 5 + 1;
          m = (if mp < 10 then mp + 3 else mp - 9);
          y = yoe + era * 400
      in (if m \<le> 2 then y + 1 else y, m, d))"

definition days_from_civil :: "int \<Rightarrow> int \<Rightarrow> int \<Rightarrow> int" where
  "days_from_civil y0 m d =
     (let y = (if m \<le> 2 then y0 - 1 else y0);
          era = y div 400;
          yoe = y mod 400;
          doy = (153 * (if m > 2 then m - 3 else m + 9) + 2) div 5 + d - 1;
          doe = yoe * 365 + yoe div 4 - yoe div 100 + doy
      in era * 146097 + doe - 719468)"

definition utc_datetime :: "int \<Rightarrow> datetime" where
  "utc_datetime t =
     (case civil_from_days (t div 86400) of
        (y, m, d) \<Rightarrow>
          \<lparr>year = y, month = m, day = d, hour = (t mod 86400) div 3600,
           minute = (t mod 3600) div 60, second = t mod 60\<rparr>)"

text \<open>
  \<^verbatim>\<open>utcfromtimestamp\<close> wants a number and a year from 1 to 9999; outside that range
  Python raises (\<^verbatim>\<open>ValueError\<close>, or \<^verbatim>\<open>OverflowError\<close> and \<^verbatim>\<open>OSError\<close> for larger
  magnitudes), which is \<open>Inl ValueError\<close> here.
\<close>

definition utcfromtimestamp :: "json \<Rightarrow> datetime result" where
  "utcfromtimestamp v =
     (case as_int v of
        None \<Rightarrow> Inl TypeError
      | Some t \<Rightarrow>
          if - 62135596800 \<le> t \<and> t \<le> 253402300799 then Inr (utc_datetime t)
          else Inl ValueError)"

text \<open>
  The format \<^verbatim>\<open>'%Y%m%d%H%M'\<close>: month, day, hour and minute are padded with zeros to two
  digits. The year is written by the C library, and glibc writes it without padding:
  the first day of year 1 is \<^verbatim>\<open>101010000\<close>.
\<close>

definition zero_pad :: "nat \<Rightarrow> int \<Rightarrow> string" where
  "zero_pad width n = replicate (width - length (str_int n)) (CHR ''0'') @ str_int n"

definition strftime_YmdHM :: "datetime \<Rightarrow> string" where
  "strftime_YmdHM dt =
     str_int (year dt) @ zero_pad 2 (month dt) @ zero_pad 2 (day dt) @
     zero_pad 2 (hour dt) @ zero_pad 2 (minute dt)"


subsection \<open>Text of values\<close>

text \<open>
  \<^verbatim>\<open>repr\<close> of a string: single quotes unless the string has a single quote and no
  double quote; backslash and the chosen quote are escaped, and so are the characters
  that are not printable. Characters are code points below 256.
\<close>

definition hex_digit :: "nat \<Rightarrow> char" where
  "hex_digit d = ''0123456789abcdef'' ! d"

definition printable :: "char \<Rightarrow> bool" where
  "printable c =
     (let n = (of_char c :: nat) in (32 \<le> n \<and> n < 127) \<or> (161 \<le> n \<and> n \<noteq> 173))"

definition repr_char :: "char \<Rightarrow> char \<Rightarrow> string" where
  "repr_char q c =
     (if c = q \<or> c = CHR 0x5C then [CHR 0x5C, c]
      else if c = CHR 0x09 then [CHR 0x5C, CHR ''t'']
      else if c = CHR 0x0A then [CHR 0x5C, CHR ''n'']
      else if c = CHR 0x0D then [CHR 0x5C, CHR ''r'']
      else if printable c then [c]
      else [CHR 0x5C, CHR ''x'', hex_digit (of_char c div 16), hex_digit (of_char c mod 16)])"

definition repr_str :: "string \<Rightarrow> string" where
  "repr_str s =
     (let q = (if CHR 0x27 \<in> set s \<and> CHR 0x22 \<notin> set s then CHR 0x22 else CHR 0x27)
      in [q] @ concat (map (repr_char q) s) @ [q])"

fun join :: "string \<Rightarrow> string list \<Rightarrow> string" where
  "join sep [] = []"
| "join sep [x] = x"
| "join sep (x # y # ys) = x @ sep @ join sep (y # ys)"

fun py_repr :: "json \<Rightarrow> string" where
  "py_repr JNull = ''None''"
| "py_repr (JBool b) = (if b then ''True'' else ''False'')"
| "py_repr (JInt i) = str_int i"
| "py_repr (JStr s) = repr_str s"
| "py_repr (JArr xs) = ''['' @ join '', '' (map py_repr xs) @ '']''"
| "py_repr (JObj kvs) =
     ''{'' @ join '', '' (map (\<lambda>kv. repr_str (fst kv) @ '': '' @ py_repr (snd kv)) kvs) @ ''}''"

text \<open>
  The text \<^verbatim>\<open>csv.writer\<close> stores for a field: \<^verbatim>\<open>None\<close> is the empty field, a string is
  stored as it is, anything else as its \<^verbatim>\<open>str\<close>.
\<close>

fun csv_field :: "json \<Rightarrow> string" where
  "csv_field JNull = []"
| "csv_field (JStr s) = s"
| "csv_field v = py_repr v"

definition append_row :: "string \<Rightarrow> csv_row \<Rightarrow> world \<Rightarrow> world" where
  "append_row name row w = w\<lparr>files := (files w)(name := files w name @ [row])\<rparr>"

section \<open>Measurement Fetcher\<close>

subsection \<open>\<^verbatim>\<open>get_historical_measurements\<close>\<close>

text \<open>
  One GET request. A response with status 200 is decoded, any other status gives
  \<^verbatim>\<open>None\<close>, which is \<open>JNull\<close> here as it is for a decoded \<^verbatim>\<open>null\<close>. The function also
  returns the replies that are left.
\<close>

definition get_historical_measurements ::
  "http_reply list \<Rightarrow> string \<Rightarrow> string \<Rightarrow> string \<Rightarrow> string \<Rightarrow> string \<Rightarrow> int \<Rightarrow> int \<Rightarrow> int \<Rightarrow>
   world \<Rightarrow> (json result \<times> http_reply list \<times> world) option" where
  "get_historical_measurements upstream access_token device_id module_id scale types
     date_begin date_end limit w =
     (case upstream of
        [] \<Rightarrow> None
      | r # rest \<Rightarrow>
          Some
            ((case r of
                NoReply \<Rightarrow> Inl RequestException
              | Reply st txt p \<Rightarrow> if st = 200 then response_json p else Inr JNull),
             rest,
             w\<lparr>sent := sent w @
                [GetMeasure access_token device_id module_id scale types date_begin date_end limit]\<rparr>))"

subsection \<open>\<^verbatim>\<open>save_measurements_to_csv\<close>\<close>

definition measurements_filename :: "string \<Rightarrow> string \<Rightarrow> string" where
  "measurements_filename device_id module_id =
     filter (\<lambda>c. c \<noteq> CHR '':'') device_id @ ''_'' @ filter (\<lambda>c. c \<noteq> CHR '':'') module_id @
     ''_measurements.csv''"

text \<open>
  The inner loop \<^verbatim>\<open>for value in entry['value']\<close> (lines 250 to 258). The row is built
  field by field, written, and then \<^verbatim>\<open>acquisition_time\<close> moves on by \<^verbatim>\<open>step_time\<close>, which
  is 86400. Rows written before an exception stay in the file.
\<close>

fun write_values :: "string \<Rightarrow> json list \<Rightarrow> json \<Rightarrow> world \<Rightarrow> json result \<times> world" where
  "write_values filename [] acquisition_time w = (Inr acquisition_time, w)"
| "write_values filename (v # vs) acquisition_time w =
     (case
        and_then (utcfromtimestamp acquisition_time) (\<lambda>dt.
        and_then (getindex v 0) (\<lambda>temperature.
        and_then (getindex v 1) (\<lambda>humidity.
        and_then (getindex v 2) (\<lambda>pressure.
        Inr [strftime_YmdHM dt, csv_field temperature, csv_field humidity, csv_field pressure]))))
      of
        Inl e \<Rightarrow> (Inl e, w)
      | Inr row \<Rightarrow>
          (case add_int acquisition_time 86400 of
             Inl e \<Rightarrow> (Inl e, append_row filename row w)
           | Inr t \<Rightarrow> write_values filename vs (JInt t) (append_row filename row w)))"

text \<open>The outer loop \<^verbatim>\<open>for entry in measurements['body']\<close> (line 249).\<close>

fun write_entries :: "string \<Rightarrow> json list \<Rightarrow> json \<Rightarrow> world \<Rightarrow> json result \<times> world" where
  "write_entries filename [] acquisition_time w = (Inr acquisition_time, w)"
| "write_entries filename (entry # entries) acquisition_time w =
     (case and_then (getitem entry ''value'') py_iter of
        Inl e \<Rightarrow> (Inl e, w)
      | Inr vs \<Rightarrow>
          (case write_values filename vs acquisition_time w of
             (Inl e, w') \<Rightarrow> (Inl e, w')
           | (Inr t, w') \<Rightarrow> write_entries filename entries t w'))"

text \<open>
  The file is opened for appending; the header goes in when the file is empty. Then
  \<^verbatim>\<open>acquisition_time\<close> is read once, from the first entry of the body (line 246).
\<close>

definition save_measurements_to_csv :: "json \<Rightarrow> string \<Rightarrow> string \<Rightarrow> world \<Rightarrow> unit result \<times> world" where
  "save_measurements_to_csv measurements device_id module_id w =
     (let filename = measurements_filename device_id module_id;
          w1 = (if files w filename = []
                then append_row filename
                       [''acquisition_time'', ''temperature'', ''humidity'', ''pressure''] w
                else w)
      in case
           and_then (getitem measurements ''body'') (\<lambda>body.
           and_then (getindex body 0) (\<lambda>first.
           and_then (getitem first ''beg_time'') (\<lambda>acquisition_time.
           and_then (getitem measurements ''body'') (\<lambda>body'.
           and_then (py_iter body') (\<lambda>entries. Inr (acquisition_time, entries))))))
         of
           Inl e \<Rightarrow> (Inl e, w1)
         | Inr (acquisition_time, entries) \<Rightarrow>
             (case write_entries filename entries acquisition_time w1 of
                (Inl e, w2) \<Rightarrow> (Inl e, w2)
              | (Inr t, w2) \<Rightarrow> (Inr (), w2)))"

subsection \<open>\<^verbatim>\<open>get_historical_measurements_batch\<close>\<close>

text \<open>
  The test of line 281:
  \<^verbatim>\<open>measurements is None or "body" not in measurements or not measurements["body"]\<close>.
\<close>

definition no_more_data :: "json \<Rightarrow> bool result" where
  "no_more_data measurements =
     (if measurements = JNull then Inr True
      else
        and_then (contains measurements ''body'') (\<lambda>has_body.
        if \<not> has_body then Inr True
        else and_then (getitem measurements ''body'') (\<lambda>body. Inr (\<not> truthy body))))"

text \<open>
  The loop \<^verbatim>\<open>while date_begin < date_end\<close>. Its variables are \<open>date_begin\<close> and
  \<open>all_measurements\<close>; it ends with both, by the loop test or by \<^verbatim>\<open>break\<close>.
\<close>

function batch_loop ::
  "http_reply list \<Rightarrow> string \<Rightarrow> string \<Rightarrow> string \<Rightarrow> string \<Rightarrow> string \<Rightarrow> int \<Rightarrow> int \<Rightarrow> int \<Rightarrow>
   json list \<Rightarrow> world \<Rightarrow> ((json list \<times> int) result \<times> world) option" where
  "batch_loop upstream access_token device_id module_id scale types date_begin date_end limit
     all_measurements w =
     (if date_begin < date_end then
        (case get_historical_measurements upstream access_token device_id module_id scale types
                date_begin date_end limit w of
           None \<Rightarrow> None
         | Some (Inl e, rest, w1) \<Rightarrow> Some (Inl e, w1)
         | Some (Inr measurements, rest, w1) \<Rightarrow>
             (case no_more_data measurements of
                Inl e \<Rightarrow> Some (Inl e, w1)
              | Inr True \<Rightarrow> Some (Inr (all_measurements, date_begin), w1)
              | Inr False \<Rightarrow>
                  (case
                     and_then (getitem measurements ''body'') (\<lambda>body.
                     and_then (getindex body (- 1)) (\<lambda>final.
                     and_then (getitem final ''beg_time'') (\<lambda>last_timestamp.
                     and_then (getitem measurements ''body'') (\<lambda>body'.
                     and_then (py_iter body') (\<lambda>entries.
                     and_then (add_int last_timestamp 86400) (\<lambda>date_begin'.
                     Inr (entries, date_begin')))))))
                   of
                     Inl e \<Rightarrow> Some (Inl e, w1)
                   | Inr (entries, date_begin') \<Rightarrow>
                       (case save_measurements_to_csv measurements device_id module_id w1 of
                          (Inl e, w2) \<Rightarrow> Some (Inl e, w2)
                        | (Inr u, w2) \<Rightarrow>
                            batch_loop rest access_token device_id module_id scale types
                              date_begin' date_end limit (all_measurements @ entries)
                              (w2\<lparr>slept := slept w2 + 1\<rparr>)))))
      else Some (Inr (all_measurements, date_begin), w))"
  by pat_completeness auto
termination
  by (relation "measure (\<lambda>(upstream, x). length upstream)")
    (auto simp: get_historical_measurements_def split: list.splits)

declare batch_loop.simps [simp del]

definition get_historical_measurements_batch ::
  "http_reply list \<Rightarrow> string \<Rightarrow> string \<Rightarrow> string \<Rightarrow> string \<Rightarrow> string \<Rightarrow> int \<Rightarrow> int \<Rightarrow> int \<Rightarrow>
   world \<Rightarrow> (json list result \<times> world) option" where
  "get_historical_measurements_batch upstream access_token device_id module_id scale types
     date_begin date_end limit w =
     (case batch_loop upstream access_token device_id module_id scale types date_begin date_end
             limit [] w of
        None \<Rightarrow> None
      | Some (Inl e, w') \<Rightarrow> Some (Inl e, w')
      | Some (Inr (all_measurements, cursor), w') \<Rightarrow> Some (Inr all_measurements, w'))"

subsection \<open>Well-formed pages\<close>

text \<open>
  A reply of the measurement endpoint is a page. Its body, as the service documents it, is
  a list of entries; an entry has an integer \<^verbatim>\<open>beg_time\<close> and a \<^verbatim>\<open>value\<close> list of rows of at
  least three readings. \<open>page_ok\<close> says so, and that every acquisition time the page is
  written with lies in the range \<^verbatim>\<open>utcfromtimestamp\<close> accepts. \<open>page_entries\<close> is the
  list of entries of a successful page (empty for anything else), \<open>data_reply\<close> a
  successful reply with a well-formed non-empty page, and \<open>stop_reply\<close> a reply that
  ends the loop: a status other than 200, a \<^verbatim>\<open>null\<close>, an object without \<^verbatim>\<open>body\<close>, or an
  object whose \<^verbatim>\<open>body\<close> is empty.
\<close>

definition min_timestamp :: int where "min_timestamp = - 62135596800"
definition max_timestamp :: int where "max_timestamp = 253402300799"

definition row_ok :: "json \<Rightarrow> bool" where
  "row_ok v = (case v of JArr xs \<Rightarrow> 3 \<le> length xs | _ \<Rightarrow> False)"

definition entry_ok :: "json \<Rightarrow> bool" where
  "entry_ok entry =
     (case entry of
        JObj kvs \<Rightarrow>
          (case map_of kvs ''beg_time'' of Some t \<Rightarrow> as_int t \<noteq> None | None \<Rightarrow> False) \<and>
          (case map_of kvs ''value'' of Some (JArr vs) \<Rightarrow> list_all row_ok vs | _ \<Rightarrow> False)
      | _ \<Rightarrow> False)"

definition beg_time :: "json \<Rightarrow> int" where
  "beg_time entry =
     (case getitem entry ''beg_time'' of
        Inr t \<Rightarrow> (case as_int t of Some i \<Rightarrow> i | None \<Rightarrow> 0)
      | Inl e \<Rightarrow> 0)"

definition entry_values :: "json \<Rightarrow> json list" where
  "entry_values entry = (case getitem entry ''value'' of Inr (JArr vs) \<Rightarrow> vs | _ \<Rightarrow> [])"

definition stamps_ok :: "json list \<Rightarrow> bool" where
  "stamps_ok entries =
     (let n = int (length (concat (map entry_values entries)))
      in n = 0 \<or>
         (min_timestamp \<le> beg_time (hd entries) \<and>
          beg_time (hd entries) + 86400 * (n - 1) \<le> max_timestamp))"

definition page_ok :: "json \<Rightarrow> bool" where
  "page_ok measurements =
     (case measurements of
        JObj kvs \<Rightarrow>
          (case map_of kvs ''body'' of
             Some (JArr entries) \<Rightarrow> entries \<noteq> [] \<and> list_all entry_ok entries \<and> stamps_ok entries
           | _ \<Rightarrow> False)
      | _ \<Rightarrow> False)"

definition page_entries :: "http_reply \<Rightarrow> json list" where
  "page_entries r =
     (case r of
        Reply st txt (Some (JObj kvs)) \<Rightarrow>
          (if st = 200 then (case map_of kvs ''body'' of Some (JArr entries) \<Rightarrow> entries | _ \<Rightarrow> [])
           else [])
      | _ \<Rightarrow> [])"

definition data_reply :: "http_reply \<Rightarrow> bool" where
  "data_reply r = (case r of Reply st txt (Some m) \<Rightarrow> st = 200 \<and> page_ok m | _ \<Rightarrow> False)"

definition stop_reply :: "http_reply \<Rightarrow> bool" where
  "stop_reply r =
     (case r of
        NoReply \<Rightarrow> False
      | Reply st txt p \<Rightarrow>
          st \<noteq> 200 \<or>
          (case p of
             Some JNull \<Rightarrow> True
           | Some (JObj kvs) \<Rightarrow> (case map_of kvs ''body'' of None \<Rightarrow> True | Some b \<Rightarrow> \<not> truthy b)
           | _ \<Rightarrow> False))"

text \<open>What a call leaves alone: everything but the one file it may append to.\<close>

definition only_file_changed :: "string \<Rightarrow> world \<Rightarrow> world \<Rightarrow> bool" where
  "only_file_changed name w w' =
     (sent w' = sent w \<and> stdout w' = stdout w \<and> slept w' = slept w \<and>
      (\<forall>f. f \<noteq> name \<longrightarrow> files w' f = files w f))"

lemma only_file_changed_refl [simp]: "only_file_changed name w w"
  by (simp add: only_file_changed_def)

lemma only_file_changed_trans:
  "only_file_changed name w w1 \<Longrightarrow> only_file_changed name w1 w2 \<Longrightarrow> only_file_changed name w w2"
  by (simp add: only_file_changed_def)

lemma only_file_changed_append [simp]: "only_file_changed name w (append_row name row w)"
  by (simp add: only_file_changed_def append_row_def)

lemma write_values_frame:
  "write_values name vs t w = (res, w') \<Longrightarrow> only_file_changed name w w'"
proof (induction vs arbitrary: t w)
  case Nil
  then show ?case by auto
next
  case (Cons v vs)
  show ?case
  proof (cases "and_then (utcfromtimestamp t) (\<lambda>dt.
        and_then (getindex v 0) (\<lambda>temperature.
        and_then (getindex v 1) (\<lambda>humidity.
        and_then (getindex v 2) (\<lambda>pressure.
        Inr [strftime_YmdHM dt, csv_field temperature, csv_field humidity, csv_field pressure]))))")
    case (Inl e)
    with Cons.prems show ?thesis by auto
  next
    case (Inr row)
    show ?thesis
    proof (cases "add_int t 86400")
      case (Inl e)
      with Inr Cons.prems show ?thesis by auto
    next
      case (Inr t')
      with \<open>_ = Inr row\<close> Cons.prems
      have "write_values name vs (JInt t') (append_row name row w) = (res, w')" by simp
      from Cons.IH [OF this] have "only_file_changed name (append_row name row w) w'" .
      with only_file_changed_append show ?thesis by (rule only_file_changed_trans)
    qed
  qed
qed

lemma write_entries_frame:
  "write_entries name es t w = (res, w') \<Longrightarrow> only_file_changed name w w'"
proof (induction es arbitrary: t w)
  case Nil
  then show ?case by auto
next
  case (Cons e es)
  show ?case
  proof (cases "and_then (getitem e ''value'') py_iter")
    case (Inl err)
    with Cons.prems show ?thesis by auto
  next
    case (Inr vs)
    obtain r1 w1 where wv: "write_values name vs t w = (r1, w1)" by (cases "write_values name vs t w")
    from write_values_frame [OF wv] have f1: "only_file_changed name w w1" .
    show ?thesis
    proof (cases r1)
      case (Inl err)
      with Inr wv Cons.prems f1 show ?thesis by auto
    next
      case (Inr t1)
      with \<open>_ = Inr vs\<close> wv Cons.prems have "write_entries name es t1 w1 = (res, w')" by simp
      from Cons.IH [OF this] have "only_file_changed name w1 w'" .
      with f1 show ?thesis by (rule only_file_changed_trans)
    qed
  qed
qed

lemma save_measurements_to_csv_frame:
  assumes "save_measurements_to_csv m device_id module_id w = (res, w')"
  shows "only_file_changed (measurements_filename device_id module_id) w w'"
proof -
  let ?name = "measurements_filename device_id module_id"
  let ?w1 = "if files w ?name = []
             then append_row ?name [''acquisition_time'', ''temperature'', ''humidity'', ''pressure''] w
             else w"
  have f1: "only_file_changed ?name w ?w1" by simp
  show ?thesis
  proof (cases "and_then (getitem m ''body'') (\<lambda>body.
           and_then (getindex body 0) (\<lambda>first.
           and_then (getitem first ''beg_time'') (\<lambda>acquisition_time.
           and_then (getitem m ''body'') (\<lambda>body'.
           and_then (py_iter body') (\<lambda>entries. Inr (acquisition_time, entries))))))")
    case (Inl e)
    with assms have "w' = ?w1" by (simp add: save_measurements_to_csv_def Let_def)
    with f1 show ?thesis by simp
  next
    case (Inr p)
    obtain t es where p: "p = (t, es)" by (cases p)
    obtain r2 w2 where we: "write_entries ?name es t ?w1 = (r2, w2)"
      by (cases "write_entries ?name es t ?w1")
    from write_entries_frame [OF we] have f2: "only_file_changed ?name ?w1 w2" .
    from assms Inr p we have "w' = w2"
      by (cases r2) (simp_all add: save_measurements_to_csv_def Let_def)
    with only_file_changed_trans [OF f1 f2] show ?thesis by simp
  qed
qed

subsection \<open>What a well-formed page writes\<close>

text \<open>
  \<open>running_rows t vs\<close> are the rows for the values \<open>vs\<close> when the first of them is
  stamped with \<open>t\<close> and each next one 86400 seconds later.
\<close>

definition measurement_row :: "int \<Rightarrow> json \<Rightarrow> csv_row" where
  "measurement_row t v =
     (case v of
        JArr xs \<Rightarrow>
          [strftime_YmdHM (utc_datetime t), csv_field (xs ! 0), csv_field (xs ! 1), csv_field (xs ! 2)]
      | _ \<Rightarrow> [])"

fun running_rows :: "int \<Rightarrow> json list \<Rightarrow> csv_row list" where
  "running_rows t [] = []"
| "running_rows t (v # vs) = measurement_row t v # running_rows (t + 86400) vs"

definition append_rows :: "string \<Rightarrow> csv_row list \<Rightarrow> world \<Rightarrow> world" where
  "append_rows name rows w = w\<lparr>files := (files w)(name := files w name @ rows)\<rparr>"

lemma append_rows_Nil [simp]: "append_rows name [] w = w"
  by (simp add: append_rows_def)

lemma append_rows_append_row:
  "append_rows name rows (append_row name row w) = append_rows name (row # rows) w"
  by (simp add: append_rows_def append_row_def)

lemma append_rows_append_rows:
  "append_rows name rows' (append_rows name rows w) = append_rows name (rows @ rows') w"
  by (simp add: append_rows_def)

lemma running_rows_append:
  "running_rows t (xs @ ys) = running_rows t xs @ running_rows (t + 86400 * int (length xs)) ys"
  by (induction xs arbitrary: t) (simp_all add: algebra_simps)

lemma row_fields:
  assumes "row_ok v" and "min_timestamp \<le> t" and "t \<le> max_timestamp" and "as_int acq = Some t"
  shows "and_then (utcfromtimestamp acq) (\<lambda>dt.
        and_then (getindex v 0) (\<lambda>temperature.
        and_then (getindex v 1) (\<lambda>humidity.
        and_then (getindex v 2) (\<lambda>pressure.
        Inr [strftime_YmdHM dt, csv_field temperature, csv_field humidity, csv_field pressure]))))
      = Inr (measurement_row t v)"
proof -
  from assms(1) obtain xs where v: "v = JArr xs" and len: "3 \<le> length xs"
    by (cases v) (simp_all add: row_ok_def)
  from len have "seq_index xs 0 = Inr (xs ! 0)" "seq_index xs 1 = Inr (xs ! 1)"
    "seq_index xs 2 = Inr (xs ! 2)"
    by (auto simp: seq_index_def Let_def)
  with assms(2-4) v show ?thesis
    by (simp add: utcfromtimestamp_def measurement_row_def min_timestamp_def max_timestamp_def)
qed

lemma write_values_ok:
  assumes "as_int acq = Some t" and "list_all row_ok vs"
    and "vs \<noteq> [] \<longrightarrow> min_timestamp \<le> t \<and> t + 86400 * (int (length vs) - 1) \<le> max_timestamp"
  shows "\<exists>acq'. write_values name vs acq w = (Inr acq', append_rows name (running_rows t vs) w) \<and>
           as_int acq' = Some (t + 86400 * int (length vs))"
  using assms
proof (induction vs arbitrary: acq t w)
  case Nil
  then show ?case by simp
next
  case (Cons v vs)
  from Cons.prems(2) have v: "row_ok v" and vs: "list_all row_ok vs" by simp_all
  from Cons.prems(3) have lo: "min_timestamp \<le> t" and hi: "t + 86400 * int (length vs) \<le> max_timestamp"
    by simp_all
  from hi have hi0: "t \<le> max_timestamp" by simp
  note row = row_fields [OF v lo hi0 Cons.prems(1)]
  have add: "add_int acq 86400 = Inr (t + 86400)" using Cons.prems(1) by (simp add: add_int_def)
  have range: "vs \<noteq> [] \<longrightarrow>
      min_timestamp \<le> t + 86400 \<and> t + 86400 + 86400 * (int (length vs) - 1) \<le> max_timestamp"
    using lo hi by (simp add: algebra_simps)
  have "as_int (JInt (t + 86400)) = Some (t + 86400)" by simp
  from Cons.IH [OF this vs range]
  obtain acq' where
    "write_values name vs (JInt (t + 86400)) (append_row name (measurement_row t v) w) =
       (Inr acq', append_rows name (running_rows (t + 86400) vs)
          (append_row name (measurement_row t v) w))"
    and "as_int acq' = Some (t + 86400 + 86400 * int (length vs))"
    by auto
  with row add show ?case by (simp add: append_rows_append_row algebra_simps)
qed

lemma entry_ok_value:
  assumes "entry_ok e"
  shows "and_then (getitem e ''value'') py_iter = Inr (entry_values e)"
    and "list_all row_ok (entry_values e)"
    and "\<exists>t. getitem e ''beg_time'' = Inr t \<and> as_int t = Some (beg_time e)"
  using assms
  by (auto simp: entry_ok_def entry_values_def beg_time_def split: json.splits option.splits)

lemma write_entries_ok:
  assumes "as_int acq = Some t" and "list_all entry_ok es"
    and "concat (map entry_values es) \<noteq> [] \<longrightarrow>
         min_timestamp \<le> t \<and>
         t + 86400 * (int (length (concat (map entry_values es))) - 1) \<le> max_timestamp"
  shows "\<exists>acq'. write_entries name es acq w =
           (Inr acq', append_rows name (running_rows t (concat (map entry_values es))) w)"
  using assms
proof (induction es arbitrary: acq t w)
  case Nil
  then show ?case by simp
next
  case (Cons e es)
  let ?vs = "entry_values e"
  let ?rest = "concat (map entry_values es)"
  from Cons.prems(2) have e: "entry_ok e" and es: "list_all entry_ok es" by simp_all
  note ev = entry_ok_value [OF e]
  have r1: "?vs \<noteq> [] \<longrightarrow> min_timestamp \<le> t \<and> t + 86400 * (int (length ?vs) - 1) \<le> max_timestamp"
    using Cons.prems(3) by auto
  from write_values_ok [OF Cons.prems(1) ev(2) r1, of name w] obtain acq1 where
    wv: "write_values name ?vs acq w = (Inr acq1, append_rows name (running_rows t ?vs) w)" and
    a1: "as_int acq1 = Some (t + 86400 * int (length ?vs))"
    by blast
  have r2: "?rest \<noteq> [] \<longrightarrow> min_timestamp \<le> t + 86400 * int (length ?vs) \<and>
      t + 86400 * int (length ?vs) + 86400 * (int (length ?rest) - 1) \<le> max_timestamp"
  proof
    assume ne: "?rest \<noteq> []"
    with Cons.prems(3) have lo: "min_timestamp \<le> t"
      and hi: "t + 86400 * (int (length (?vs @ ?rest)) - 1) \<le> max_timestamp" by simp_all
    from lo have "min_timestamp \<le> t + 86400 * int (length ?vs)" by simp
    moreover from hi have "t + 86400 * int (length ?vs) + 86400 * (int (length ?rest) - 1) \<le> max_timestamp"
      by (simp add: algebra_simps)
    ultimately show "min_timestamp \<le> t + 86400 * int (length ?vs) \<and>
      t + 86400 * int (length ?vs) + 86400 * (int (length ?rest) - 1) \<le> max_timestamp" ..
  qed
  from Cons.IH [OF a1 es r2, of "append_rows name (running_rows t ?vs) w"] obtain acq' where
    "write_entries name es acq1 (append_rows name (running_rows t ?vs) w) =
       (Inr acq', append_rows name (running_rows (t + 86400 * int (length ?vs)) ?rest)
          (append_rows name (running_rows t ?vs) w))"
    by blast
  with wv ev(1) show ?case
    by (simp add: append_rows_append_rows running_rows_append)
qed

definition header_rows :: "world \<Rightarrow> string \<Rightarrow> csv_row list" where
  "header_rows w name =
     (if files w name = [] then [[''acquisition_time'', ''temperature'', ''humidity'', ''pressure'']]
      else [])"

lemma page_ok_body:
  assumes "page_ok m"
  obtains kvs entries where "m = JObj kvs" and "map_of kvs ''body'' = Some (JArr entries)"
    and "entries \<noteq> []" and "list_all entry_ok entries" and "stamps_ok entries"
proof -
  from assms obtain kvs where m: "m = JObj kvs" by (cases m) (simp_all add: page_ok_def)
  with assms obtain b where b: "map_of kvs ''body'' = Some b"
    by (cases "map_of kvs ''body''") (simp_all add: page_ok_def)
  with assms m obtain entries where "b = JArr entries" by (cases b) (simp_all add: page_ok_def)
  with assms m b that show thesis by (simp add: page_ok_def)
qed

lemma save_measurements_to_csv_ok:
  assumes "page_ok m"
  shows "save_measurements_to_csv m device_id module_id w =
           (Inr (),
            append_rows (measurements_filename device_id module_id)
              (header_rows w (measurements_filename device_id module_id) @
               running_rows (beg_time (hd (page_entries (Reply 200 txt (Some m)))))
                 (concat (map entry_values (page_entries (Reply 200 txt (Some m))))))
              w)"
proof -
  let ?name = "measurements_filename device_id module_id"
  from assms obtain kvs es where m: "m = JObj kvs" and body: "map_of kvs ''body'' = Some (JArr es)"
    and ne: "es \<noteq> []" and ok: "list_all entry_ok es" and st: "stamps_ok es"
    by (rule page_ok_body)
  have pe: "page_entries (Reply 200 txt (Some m)) = es" using m body by (simp add: page_entries_def)
  from ne obtain e0 es' where es: "es = e0 # es'" by (cases es) auto
  with ok have "entry_ok e0" by simp
  from entry_ok_value(3) [OF this] obtain t0 where
    t0: "getitem e0 ''beg_time'' = Inr t0" "as_int t0 = Some (beg_time e0)" by blast
  have first: "and_then (getitem m ''body'') (\<lambda>body.
           and_then (getindex body 0) (\<lambda>first.
           and_then (getitem first ''beg_time'') (\<lambda>acquisition_time.
           and_then (getitem m ''body'') (\<lambda>body'.
           and_then (py_iter body') (\<lambda>entries. Inr (acquisition_time, entries))))))
        = Inr (t0, es)"
    using m body es t0 by (simp add: seq_index_def)
  let ?w1 = "append_rows ?name (header_rows w ?name) w"
  have w1: "(if files w ?name = []
             then append_row ?name [''acquisition_time'', ''temperature'', ''humidity'', ''pressure''] w
             else w) = ?w1"
    by (simp add: header_rows_def append_rows_def append_row_def)
  have range: "concat (map entry_values es) \<noteq> [] \<longrightarrow>
         min_timestamp \<le> beg_time e0 \<and>
         beg_time e0 + 86400 * (int (length (concat (map entry_values es))) - 1) \<le> max_timestamp"
  proof
    assume "concat (map entry_values es) \<noteq> []"
    then have "int (length (concat (map entry_values es))) \<noteq> 0" by simp
    with st es show "min_timestamp \<le> beg_time e0 \<and>
         beg_time e0 + 86400 * (int (length (concat (map entry_values es))) - 1) \<le> max_timestamp"
      unfolding stamps_ok_def Let_def by simp
  qed
  from write_entries_ok [OF t0(2) ok range] obtain acq' where
    we: "write_entries ?name es t0 ?w1 =
       (Inr acq', append_rows ?name (running_rows (beg_time e0) (concat (map entry_values es))) ?w1)"
    by blast
  have hd: "hd es = e0" using es by simp
  have "save_measurements_to_csv m device_id module_id w =
      (case write_entries ?name es t0 ?w1 of (Inl e, w2) \<Rightarrow> (Inl e, w2) | (Inr t, w2) \<Rightarrow> (Inr (), w2))"
    unfolding save_measurements_to_csv_def Let_def first w1 by simp
  also have "\<dots> = (Inr (), append_rows ?name (header_rows w ?name @
      running_rows (beg_time e0) (concat (map entry_values es))) w)"
    unfolding we by (simp add: append_rows_append_rows)
  finally show ?thesis unfolding pe hd .
qed

subsection \<open>One iteration of the loop\<close>

text \<open>
  \<open>reply_value\<close> is what \<^verbatim>\<open>get_historical_measurements\<close> returns for a reply, and
  \<open>next_cursor\<close> the value of \<^verbatim>\<open>date_begin\<close> after a page: the \<^verbatim>\<open>beg_time\<close> of its last
  entry plus 86400.
\<close>

definition reply_value :: "http_reply \<Rightarrow> json result" where
  "reply_value r =
     (case r of
        NoReply \<Rightarrow> Inl RequestException
      | Reply st txt p \<Rightarrow> if st = 200 then response_json p else Inr JNull)"

definition next_cursor :: "http_reply \<Rightarrow> int" where
  "next_cursor r = beg_time (last (page_entries r)) + 86400"

lemma get_historical_measurements_Cons:
  "get_historical_measurements (r # rest) access_token device_id module_id scale types
     date_begin date_end limit w =
   Some (reply_value r, rest,
     w\<lparr>sent := sent w @
       [GetMeasure access_token device_id module_id scale types date_begin date_end limit]\<rparr>)"
  by (simp add: get_historical_measurements_def reply_value_def)

lemma get_historical_measurements_Nil:
  "get_historical_measurements [] access_token device_id module_id scale types
     date_begin date_end limit w = None"
  by (simp add: get_historical_measurements_def)

lemma no_more_data_True_entries:
  assumes "reply_value r = Inr m" and "no_more_data m = Inr True"
  shows "page_entries r = []"
proof (cases r)
  case NoReply
  then show ?thesis by (simp add: page_entries_def)
next
  case (Reply st tx p)
  show ?thesis
  proof (cases "st = 200")
    case False
    with Reply show ?thesis by (simp add: page_entries_def split: option.splits json.splits)
  next
    case True
    with Reply assms(1) have p: "p = Some m"
      by (simp add: reply_value_def response_json_def split: option.splits)
    show ?thesis
    proof (cases m)
      case (JObj kvs)
      show ?thesis
      proof (cases "map_of kvs ''body''")
        case None
        with Reply p JObj show ?thesis by (simp add: page_entries_def)
      next
        case (Some b)
        then have "''body'' \<in> fst ` set kvs" by (metis map_of_eq_None_iff option.distinct(1))
        with assms(2) JObj Some have "\<not> truthy b" by (simp add: no_more_data_def)
        with Reply p JObj Some show ?thesis
          by (cases b) (simp_all add: page_entries_def)
      qed
    qed (use Reply p in \<open>simp_all add: page_entries_def\<close>)
  qed
qed

lemma page_extract_entries:
  assumes "reply_value r = Inr m" and "no_more_data m = Inr False"
    and "and_then (getitem m ''body'') (\<lambda>body.
         and_then (getindex body (- 1)) (\<lambda>final.
         and_then (getitem final ''beg_time'') (\<lambda>last_timestamp.
         and_then (getitem m ''body'') (\<lambda>body'.
         and_then (py_iter body') (\<lambda>entries.
         and_then (add_int last_timestamp 86400) (\<lambda>date_begin'.
         Inr (entries, date_begin'))))))) = Inr (entries, c')"
  shows "page_entries r = entries" and "entries \<noteq> []" and "c' = next_cursor r"
proof -
  from assms(2) have "m \<noteq> JNull" by (auto simp: no_more_data_def)
  with assms(1) obtain st tx where r: "r = Reply st tx (Some m)" and st: "st = 200"
    by (cases r) (auto simp: reply_value_def response_json_def split: if_splits option.splits)
  from assms(3) obtain kvs where m: "m = JObj kvs" by (cases m) simp_all
  with assms(3) obtain b where b: "map_of kvs ''body'' = Some b"
    by (cases "map_of kvs ''body''") simp_all
  have "b = JArr entries"
  proof (cases b)
    case (JArr xs)
    with assms(3) m b show ?thesis
      by (auto simp: and_then_def split: sum.splits)
  next
    case (JStr s)
    with assms(3) m b show ?thesis
      by (cases "seq_index s (- 1)") simp_all
  qed (use assms(3) m b in simp_all)
  with r st m b show pe: "page_entries r = entries" by (simp add: page_entries_def)
  from assms(3) m b \<open>b = JArr entries\<close> have rest:
    "and_then (seq_index entries (- 1)) (\<lambda>final.
     and_then (getitem final ''beg_time'') (\<lambda>last_timestamp.
     and_then (add_int last_timestamp 86400) (\<lambda>date_begin'. Inr (entries, date_begin')))) =
     Inr (entries, c')"
    by simp
  then obtain final where final: "seq_index entries (- 1) = Inr final"
    by (cases "seq_index entries (- 1)") simp_all
  then show ne: "entries \<noteq> []" by (auto simp: seq_index_def)
  then have "Suc 0 \<le> length entries" by (cases entries) simp_all
  with ne final have fl: "final = last entries"
    by (simp add: seq_index_def last_conv_nth nat_diff_distrib')
  from rest final obtain t where t: "getitem final ''beg_time'' = Inr t"
    by (cases "getitem final ''beg_time''") simp_all
  with rest final obtain i where i: "as_int t = Some i" and c': "c' = i + 86400"
    by (cases "as_int t") (simp_all add: add_int_def)
  from t i fl have "beg_time (last entries) = i" by (simp add: beg_time_def)
  with c' pe show "c' = next_cursor r" by (simp add: next_cursor_def)
qed

lemma batch_loop_done:
  "\<not> date_begin < date_end \<Longrightarrow>
   batch_loop upstream access_token device_id module_id scale types date_begin date_end limit
     all_measurements w = Some (Inr (all_measurements, date_begin), w)"
  by (simp add: batch_loop.simps)

lemma batch_loop_Nil:
  "date_begin < date_end \<Longrightarrow>
   batch_loop [] access_token device_id module_id scale types date_begin date_end limit
     all_measurements w = None"
  by (simp add: batch_loop.simps get_historical_measurements_Nil)

lemma batch_loop_iteration:
  assumes "date_begin < date_end"
  shows
    "(\<exists>e w1. batch_loop (r # rest) access_token device_id module_id scale types date_begin date_end
         limit all_measurements w = Some (Inl e, w1)) \<or>
     (page_entries r = [] \<and>
      batch_loop (r # rest) access_token device_id module_id scale types date_begin date_end
         limit all_measurements w =
        Some (Inr (all_measurements, date_begin),
          w\<lparr>sent := sent w @
            [GetMeasure access_token device_id module_id scale types date_begin date_end limit]\<rparr>)) \<or>
     (page_entries r \<noteq> [] \<and>
      (\<exists>w3. length (sent w3) = Suc (length (sent w)) \<and>
        batch_loop (r # rest) access_token device_id module_id scale types date_begin date_end
          limit all_measurements w =
        batch_loop rest access_token device_id module_id scale types (next_cursor r) date_end
          limit (all_measurements @ page_entries r) w3))"
proof -
  let ?w1 = "w\<lparr>sent := sent w @
       [GetMeasure access_token device_id module_id scale types date_begin date_end limit]\<rparr>"
  let ?lhs = "batch_loop (r # rest) access_token device_id module_id scale types date_begin date_end
         limit all_measurements w"
  note unfold = batch_loop.simps [of "r # rest" access_token device_id module_id scale types
      date_begin date_end limit all_measurements w]
  show ?thesis
  proof (cases "reply_value r")
    case (Inl e)
    with assms have "?lhs = Some (Inl e, ?w1)"
      by (simp add: unfold get_historical_measurements_Cons)
    then show ?thesis by blast
  next
    case m: (Inr m)
    show ?thesis
    proof (cases "no_more_data m")
      case (Inl e)
      with assms m have "?lhs = Some (Inl e, ?w1)"
        by (simp add: unfold get_historical_measurements_Cons)
      then show ?thesis by blast
    next
      case (Inr stop)
      show ?thesis
      proof (cases stop)
        case True
        with assms m Inr have "?lhs = Some (Inr (all_measurements, date_begin), ?w1)"
          by (simp add: unfold get_historical_measurements_Cons)
        moreover from m Inr True have "page_entries r = []"
          by (simp add: no_more_data_True_entries)
        ultimately show ?thesis by blast
      next
        case False
        let ?chain = "and_then (getitem m ''body'') (\<lambda>body.
           and_then (getindex body (- 1)) (\<lambda>final.
           and_then (getitem final ''beg_time'') (\<lambda>last_timestamp.
           and_then (getitem m ''body'') (\<lambda>body'.
           and_then (py_iter body') (\<lambda>entries.
           and_then (add_int last_timestamp 86400) (\<lambda>date_begin'.
           Inr (entries, date_begin')))))))"
        show ?thesis
        proof (cases ?chain)
          case (Inl e)
          with assms m \<open>no_more_data m = Inr stop\<close> False have "?lhs = Some (Inl e, ?w1)"
            by (simp add: unfold get_historical_measurements_Cons)
          then show ?thesis by blast
        next
          case chain: (Inr p)
          obtain entries c' where p: "p = (entries, c')" by (cases p)
          from m \<open>no_more_data m = Inr stop\<close> False chain p
          have pe: "page_entries r = entries" and ne: "page_entries r \<noteq> []"
            and c': "c' = next_cursor r"
            by (simp_all add: page_extract_entries)
          obtain res w2 where save: "save_measurements_to_csv m device_id module_id ?w1 = (res, w2)"
            by (cases "save_measurements_to_csv m device_id module_id ?w1")
          from save_measurements_to_csv_frame [OF save] have sent2: "sent w2 = sent ?w1"
            by (simp add: only_file_changed_def)
          show ?thesis
          proof (cases res)
            case (Inl e)
            with assms m \<open>no_more_data m = Inr stop\<close> False chain p save
            have "?lhs = Some (Inl e, w2)"
              by (simp add: unfold get_historical_measurements_Cons)
            then show ?thesis by blast
          next
            case (Inr u)
            with assms m \<open>no_more_data m = Inr stop\<close> False chain p save pe
            have "?lhs = batch_loop rest access_token device_id module_id scale types c' date_end
                limit (all_measurements @ page_entries r) (w2\<lparr>slept := slept w2 + 1\<rparr>)"
              by (simp add: unfold get_historical_measurements_Cons)
            moreover have "length (sent (w2\<lparr>slept := slept w2 + 1\<rparr>)) = Suc (length (sent w))"
              using sent2 by simp
            ultimately show ?thesis using ne c' by blast
          qed
        qed
      qed
    qed
  qed
qed

text \<open>
  The world after an iteration that fetched a well-formed page \<open>r\<close> with request \<open>rq\<close>:
  the request is sent, the rows of the page are appended to the file of the device and
  module (after the header, if the file was empty), and one second is slept.
\<close>

definition after_page :: "string \<Rightarrow> string \<Rightarrow> request \<Rightarrow> http_reply \<Rightarrow> world \<Rightarrow> world" where
  "after_page device_id module_id rq r w =
     (let name = measurements_filename device_id module_id
      in (append_rows name
            (header_rows w name @
             running_rows (beg_time (hd (page_entries r))) (concat (map entry_values (page_entries r))))
            (w\<lparr>sent := sent w @ [rq]\<rparr>))
         \<lparr>slept := slept w + 1\<rparr>)"

lemma after_page_sent [simp]: "sent (after_page device_id module_id rq r w) = sent w @ [rq]"
  by (simp add: after_page_def Let_def append_rows_def)

lemma after_page_slept [simp]: "slept (after_page device_id module_id rq r w) = slept w + 1"
  by (simp add: after_page_def Let_def append_rows_def)

lemma after_page_stdout [simp]: "stdout (after_page device_id module_id rq r w) = stdout w"
  by (simp add: after_page_def Let_def append_rows_def)

lemma after_page_files:
  "files (after_page device_id module_id rq r w) =
     (files w)(measurements_filename device_id module_id :=
        files w (measurements_filename device_id module_id) @
        header_rows w (measurements_filename device_id module_id) @
        running_rows (beg_time (hd (page_entries r))) (concat (map entry_values (page_entries r))))"
  by (simp add: after_page_def Let_def append_rows_def)

lemma data_reply_page:
  assumes "data_reply r"
  obtains tx m where "r = Reply 200 tx (Some m)" and "page_ok m"
  using assms by (auto simp: data_reply_def split: http_reply.splits option.splits)

lemma page_ok_continue:
  assumes "page_ok m"
  shows "no_more_data m = Inr False"
    and "and_then (getitem m ''body'') (\<lambda>body.
         and_then (getindex body (- 1)) (\<lambda>final.
         and_then (getitem final ''beg_time'') (\<lambda>last_timestamp.
         and_then (getitem m ''body'') (\<lambda>body'.
         and_then (py_iter body') (\<lambda>entries.
         and_then (add_int last_timestamp 86400) (\<lambda>date_begin'.
         Inr (entries, date_begin'))))))) =
       Inr (page_entries (Reply 200 tx (Some m)), next_cursor (Reply 200 tx (Some m)))"
proof -
  from assms obtain kvs es where m: "m = JObj kvs" and body: "map_of kvs ''body'' = Some (JArr es)"
    and ne: "es \<noteq> []" and ok: "list_all entry_ok es"
    by (rule page_ok_body)
  from body have "''body'' \<in> fst ` set kvs" by (metis map_of_eq_None_iff option.distinct(1))
  with m body ne show "no_more_data m = Inr False" by (simp add: no_more_data_def)
  have pe: "page_entries (Reply 200 tx (Some m)) = es" using m body by (simp add: page_entries_def)
  from ne have "Suc 0 \<le> length es" by (cases es) simp_all
  with ne have idx: "seq_index es (- 1) = Inr (last es)"
    by (simp add: seq_index_def last_conv_nth nat_diff_distrib')
  from ne ok have "entry_ok (last es)" by (simp add: list_all_iff)
  from entry_ok_value(3) [OF this] obtain t where
    t: "getitem (last es) ''beg_time'' = Inr t" "as_int t = Some (beg_time (last es))" by blast
  then have "add_int t 86400 = Inr (beg_time (last es) + 86400)" by (simp add: add_int_def)
  with m body idx t(1) show "and_then (getitem m ''body'') (\<lambda>body.
         and_then (getindex body (- 1)) (\<lambda>final.
         and_then (getitem final ''beg_time'') (\<lambda>last_timestamp.
         and_then (getitem m ''body'') (\<lambda>body'.
         and_then (py_iter body') (\<lambda>entries.
         and_then (add_int last_timestamp 86400) (\<lambda>date_begin'.
         Inr (entries, date_begin'))))))) =
       Inr (page_entries (Reply 200 tx (Some m)), next_cursor (Reply 200 tx (Some m)))"
    unfolding pe next_cursor_def by simp
qed

lemma batch_loop_data:
  assumes "date_begin < date_end" and "data_reply r"
  shows "batch_loop (r # rest) access_token device_id module_id scale types date_begin date_end
           limit all_measurements w =
         batch_loop rest access_token device_id module_id scale types (next_cursor r) date_end
           limit (all_measurements @ page_entries r)
           (after_page device_id module_id
              (GetMeasure access_token device_id module_id scale types date_begin date_end limit) r w)"
proof -
  from assms(2) obtain tx m where r: "r = Reply 200 tx (Some m)" and ok: "page_ok m"
    by (rule data_reply_page)
  let ?w1 = "w\<lparr>sent := sent w @
       [GetMeasure access_token device_id module_id scale types date_begin date_end limit]\<rparr>"
  have rv: "reply_value r = Inr m" by (simp add: r reply_value_def response_json_def)
  note c = page_ok_continue(1) [OF ok] page_ok_continue(2) [OF ok, of tx]
  note s = save_measurements_to_csv_ok [OF ok, of device_id module_id ?w1 tx]
  have hdr: "header_rows ?w1 (measurements_filename device_id module_id) =
      header_rows w (measurements_filename device_id module_id)"
    by (simp add: header_rows_def)
  show ?thesis
    unfolding batch_loop.simps [of "r # rest" access_token device_id module_id scale types
      date_begin date_end limit all_measurements w]
    using assms(1)
    by (simp add: get_historical_measurements_Cons rv c s hdr r [symmetric] after_page_def Let_def
        append_rows_def)
qed

lemma stop_reply_value:
  assumes "stop_reply r"
  shows "\<exists>m. reply_value r = Inr m \<and> no_more_data m = Inr True"
proof -
  from assms obtain st tx p where r: "r = Reply st tx p" by (cases r) (simp_all add: stop_reply_def)
  show ?thesis
  proof (cases "st = 200")
    case False
    with r show ?thesis by (simp add: reply_value_def no_more_data_def)
  next
    case True
    with assms r obtain m where p: "p = Some m" by (cases p) (simp_all add: stop_reply_def)
    have "no_more_data m = Inr True"
    proof (cases m)
      case (JObj kvs)
      show ?thesis
      proof (cases "map_of kvs ''body''")
        case None
        then have "''body'' \<notin> fst ` set kvs" by (simp add: map_of_eq_None_iff)
        with JObj show ?thesis by (simp add: no_more_data_def)
      next
        case (Some b)
        then have "''body'' \<in> fst ` set kvs" by (metis map_of_eq_None_iff option.distinct(1))
        with assms r True p JObj Some show ?thesis by (simp add: no_more_data_def stop_reply_def)
      qed
    qed (use assms r True p in \<open>simp_all add: stop_reply_def no_more_data_def\<close>)
    with r True p show ?thesis by (simp add: reply_value_def response_json_def)
  qed
qed

lemma batch_loop_stop:
  assumes "date_begin < date_end" and "stop_reply r"
  shows "batch_loop (r # rest) access_token device_id module_id scale types date_begin date_end
           limit all_measurements w =
         Some (Inr (all_measurements, date_begin),
           w\<lparr>sent := sent w @
             [GetMeasure access_token device_id module_id scale types date_begin date_end limit]\<rparr>)"
proof -
  from stop_reply_value [OF assms(2)] obtain m where
    "reply_value r = Inr m" "no_more_data m = Inr True" by blast
  with assms(1) show ?thesis
    unfolding batch_loop.simps [of "r # rest" access_token device_id module_id scale types
      date_begin date_end limit all_measurements w]
    by (simp add: get_historical_measurements_Cons)
qed

text \<open>
  \<open>pages_fetched date_begin date_end upstream\<close> are the replies the loop fetches before
  it stops, in the order of the requests: none once the cursor has reached \<^verbatim>\<open>date_end\<close>;
  otherwise the next reply, and, if that reply is a successful page with entries, the
  replies fetched from the cursor that page leaves. The last of them may be the reply that
  ended the loop, which has no entries.
\<close>

fun pages_fetched :: "int \<Rightarrow> int \<Rightarrow> http_reply list \<Rightarrow> http_reply list" where
  "pages_fetched date_begin date_end [] = []"
| "pages_fetched date_begin date_end (r # rest) =
     (if date_begin < date_end
      then r # (if page_entries r = [] then [] else pages_fetched (next_cursor r) date_end rest)
      else [])"

lemma batch_loop_collects:
  assumes "batch_loop upstream access_token device_id module_id scale types date_begin date_end
             limit all_measurements w = Some (Inr (result, cursor), w')"
  shows "result =
           all_measurements @ concat (map page_entries (pages_fetched date_begin date_end upstream)) \<and>
         length (sent w') = length (sent w) + length (pages_fetched date_begin date_end upstream)"
  using assms
proof (induction upstream arbitrary: date_begin all_measurements w)
  case Nil
  then have "\<not> date_begin < date_end" by (auto simp: batch_loop_Nil)
  with Nil show ?case by (simp add: batch_loop_done)
next
  case (Cons r rest)
  let ?lhs = "batch_loop (r # rest) access_token device_id module_id scale types date_begin
      date_end limit all_measurements w"
  show ?case
  proof (cases "date_begin < date_end")
    case False
    with Cons.prems show ?thesis by (simp add: batch_loop_done)
  next
    case True
    have "(\<exists>e w1. ?lhs = Some (Inl e, w1)) \<or>
     (page_entries r = [] \<and>
      ?lhs = Some (Inr (all_measurements, date_begin),
          w\<lparr>sent := sent w @
            [GetMeasure access_token device_id module_id scale types date_begin date_end limit]\<rparr>)) \<or>
     (page_entries r \<noteq> [] \<and>
      (\<exists>w3. length (sent w3) = Suc (length (sent w)) \<and>
        ?lhs = batch_loop rest access_token device_id module_id scale types (next_cursor r) date_end
          limit (all_measurements @ page_entries r) w3))"
      using True by (rule batch_loop_iteration)
    then show ?thesis
    proof (elim disjE)
      assume "\<exists>e w1. ?lhs = Some (Inl e, w1)"
      with Cons.prems show ?thesis by auto
    next
      assume "page_entries r = [] \<and>
        ?lhs = Some (Inr (all_measurements, date_begin),
          w\<lparr>sent := sent w @
            [GetMeasure access_token device_id module_id scale types date_begin date_end limit]\<rparr>)"
      with Cons.prems True show ?thesis by auto
    next
      assume "page_entries r \<noteq> [] \<and>
        (\<exists>w3. length (sent w3) = Suc (length (sent w)) \<and>
          ?lhs = batch_loop rest access_token device_id module_id scale types (next_cursor r)
            date_end limit (all_measurements @ page_entries r) w3)"
      then obtain w3 where ne: "page_entries r \<noteq> []"
        and w3: "length (sent w3) = Suc (length (sent w))"
        and "?lhs = batch_loop rest access_token device_id module_id scale types (next_cursor r)
            date_end limit (all_measurements @ page_entries r) w3"
        by blast
      with Cons.prems
      have "batch_loop rest access_token device_id module_id scale types (next_cursor r)
          date_end limit (all_measurements @ page_entries r) w3 = Some (Inr (result, cursor), w')"
        by simp
      from Cons.IH [OF this] True ne w3 show ?thesis by simp
    qed
  qed
qed

lemma batch_loop_total:
  assumes "list_all data_reply pages" and "stop_reply s"
  shows "\<exists>result cursor w'.
           batch_loop (pages @ s # later) access_token device_id module_id scale types date_begin
             date_end limit all_measurements w = Some (Inr (result, cursor), w')"
  using assms(1)
proof (induction pages arbitrary: date_begin all_measurements w)
  case Nil
  show ?case
    by (cases "date_begin < date_end") (simp_all add: batch_loop_stop [OF _ assms(2)] batch_loop_done)
next
  case (Cons r pages)
  then have r: "data_reply r" and rest: "list_all data_reply pages" by simp_all
  show ?case
  proof (cases "date_begin < date_end")
    case True
    from Cons.IH [OF rest] show ?thesis by (simp add: batch_loop_data [OF True r])
  next
    case False
    then show ?thesis by (simp add: batch_loop_done)
  qed
qed

subsection \<open>The loop as a whole\<close>

text \<open>A page with one entry of one row that begins at \<open>t\<close>, for the examples.\<close>

definition example_page :: "int \<Rightarrow> http_reply" where
  "example_page t =
     Reply 200 []
       (Some (JObj [(''body'',
          JArr [JObj [(''beg_time'', JInt t), (''step_time'', JInt 86400),
                      (''value'', JArr [JArr [JInt 21, JInt 40, JInt 1013]])]]),
         (''status'', JStr ''ok'')]))"

lemma example_page_data: 
  "min_timestamp \<le> t \<Longrightarrow> t \<le> max_timestamp \<Longrightarrow> data_reply (example_page t)"
  by (simp add: example_page_def data_reply_def page_ok_def entry_ok_def row_ok_def stamps_ok_def
      entry_values_def beg_time_def)

lemma example_page_entries:
  "page_entries (example_page t) =
     [JObj [(''beg_time'', JInt t), (''step_time'', JInt 86400),
            (''value'', JArr [JArr [JInt 21, JInt 40, JInt 1013]])]]"
  by (simp add: example_page_def page_entries_def)

lemma example_page_cursor: "next_cursor (example_page t) = t + 86400"
  by (simp add: next_cursor_def example_page_entries beg_time_def)

lemma pages_fetched_prefix:
  "pages_fetched date_begin date_end upstream =
     take (length (pages_fetched date_begin date_end upstream)) upstream"
  by (induction upstream arbitrary: date_begin) simp_all

text \<open>
  C10. When \<^verbatim>\<open>date_begin >= date_end\<close> the function returns the empty list and leaves the
  world as it was: no request is sent and no file is written.
\<close>

theorem batch_empty_range:
  assumes "date_end \<le> date_begin"
  shows "get_historical_measurements_batch upstream access_token device_id module_id scale types
           date_begin date_end limit w = Some (Inr [], w)"
  using assms by (simp add: get_historical_measurements_batch_def batch_loop_done)

theorem batch_empty_range_witness:
  "(1700000000::int) \<le> 1700000000 \<and>
   get_historical_measurements_batch [example_page 1700000000] ''token'' ''70:ee:50:00:00:01''
     ''02:00:00:00:00:01'' ''1day'' ''Temperature,Humidity,Pressure'' 1700000000 1700000000 1024
     initial_world = Some (Inr [], initial_world)"
  using batch_empty_range [of 1700000000 1700000000 "[example_page 1700000000]" "''token''"
      "''70:ee:50:00:00:01''" "''02:00:00:00:00:01''" "''1day''"
      "''Temperature,Humidity,Pressure''" 1024 initial_world]
  by simp

text \<open>
  C3. Whatever the replies are, a list returned by \<^verbatim>\<open>get_historical_measurements_batch\<close>
  is exactly the concatenation, in the order of the requests, of the \<^verbatim>\<open>body\<close> entries of
  the replies fetched before the loop stopped, and one request was sent for each of them.
  And when the replies are well-formed pages followed by a reply that ends the loop, the
  function does return that list.
\<close>

theorem batch_returns_concatenation:
  "(\<forall>result w'.
      get_historical_measurements_batch upstream access_token device_id module_id scale types
        date_begin date_end limit w = Some (Inr result, w') \<longrightarrow>
      result = concat (map page_entries (pages_fetched date_begin date_end upstream)) \<and>
      length (sent w') = length (sent w) + length (pages_fetched date_begin date_end upstream)) \<and>
   (list_all data_reply pages \<and> stop_reply s \<and> upstream = pages @ s # later \<longrightarrow>
      (\<exists>w'.
         get_historical_measurements_batch upstream access_token device_id module_id scale types
           date_begin date_end limit w =
           Some (Inr (concat (map page_entries (pages_fetched date_begin date_end upstream))), w') \<and>
         length (sent w') = length (sent w) + length (pages_fetched date_begin date_end upstream)))"
proof (intro conjI allI impI)
  fix result w'
  assume "get_historical_measurements_batch upstream access_token device_id module_id scale types
        date_begin date_end limit w = Some (Inr result, w')"
  then obtain cursor where run: "batch_loop upstream access_token device_id module_id scale types
      date_begin date_end limit [] w = Some (Inr (result, cursor), w')"
    by (auto simp: get_historical_measurements_batch_def split: option.splits sum.splits)
  from batch_loop_collects [OF run]
  show "result = concat (map page_entries (pages_fetched date_begin date_end upstream))"
    by simp
  from batch_loop_collects [OF run]
  show "length (sent w') = length (sent w) + length (pages_fetched date_begin date_end upstream)"
    by simp
next
  assume a: "list_all data_reply pages \<and> stop_reply s \<and> upstream = pages @ s # later"
  then have "list_all data_reply pages" "stop_reply s" by simp_all
  from batch_loop_total [OF this, of later access_token device_id module_id scale types
      date_begin date_end limit "[]" w] a
  obtain result cursor w' where run: "batch_loop upstream access_token device_id module_id scale
      types date_begin date_end limit [] w = Some (Inr (result, cursor), w')"
    by auto
  from batch_loop_collects [OF run]
  have "result = concat (map page_entries (pages_fetched date_begin date_end upstream))"
    and "length (sent w') = length (sent w) + length (pages_fetched date_begin date_end upstream)"
    by simp_all
  with run show "\<exists>w'.
         get_historical_measurements_batch upstream access_token device_id module_id scale types
           date_begin date_end limit w =
           Some (Inr (concat (map page_entries (pages_fetched date_begin date_end upstream))), w') \<and>
         length (sent w') = length (sent w) + length (pages_fetched date_begin date_end upstream)"
    by (auto simp: get_historical_measurements_batch_def)
qed

text \<open>
  C4. If the first reply is a well-formed non-empty page and the second is a failure, has
  no \<^verbatim>\<open>body\<close> or has an empty \<^verbatim>\<open>body\<close>, the function returns exactly the entries of the
  first page; it sends the first request, the second one if the cursor is still before
  \<^verbatim>\<open>date_end\<close>, and no third.
\<close>

theorem batch_stops_after_first_page:
  assumes "date_begin < date_end" and "data_reply r1" and "stop_reply r2"
  shows "\<exists>w'. get_historical_measurements_batch (r1 # r2 # later) access_token device_id module_id
             scale types date_begin date_end limit w = Some (Inr (page_entries r1), w') \<and>
           sent w' = sent w @
             GetMeasure access_token device_id module_id scale types date_begin date_end limit #
             (if next_cursor r1 < date_end
              then [GetMeasure access_token device_id module_id scale types (next_cursor r1)
                      date_end limit]
              else [])"
proof (cases "next_cursor r1 < date_end")
  case True
  then show ?thesis
    by (simp add: get_historical_measurements_batch_def batch_loop_data [OF assms(1,2)]
        batch_loop_stop [OF True assms(3)])
next
  case False
  then show ?thesis
    by (simp add: get_historical_measurements_batch_def batch_loop_data [OF assms(1,2)]
        batch_loop_done)
qed

subsection \<open>The fetch cursor\<close>

text \<open>
  \<open>in_step cursor date_end upstream\<close> is the precondition that every entry of a page
  begins at or after the cursor the page was requested with, for the pages the loop
  gets to.
\<close>

fun in_step :: "int \<Rightarrow> int \<Rightarrow> http_reply list \<Rightarrow> bool" where
  "in_step cursor date_end [] = True"
| "in_step cursor date_end (r # rs) =
     (cursor < date_end \<and> data_reply r \<longrightarrow>
        list_all (\<lambda>entry. cursor \<le> beg_time entry) (page_entries r) \<and>
        in_step (next_cursor r) date_end rs)"

lemma data_reply_entries: "data_reply r \<Longrightarrow> page_entries r \<noteq> []"
proof -
  assume "data_reply r"
  then obtain tx m where r: "r = Reply 200 tx (Some m)" and "page_ok m" by (rule data_reply_page)
  then obtain kvs es where "m = JObj kvs" "map_of kvs ''body'' = Some (JArr es)" "es \<noteq> []"
    by (auto elim: page_ok_body)
  with r show ?thesis by (simp add: page_entries_def)
qed

lemma data_reply_not_stop: "data_reply r \<Longrightarrow> \<not> stop_reply r"
proof -
  assume "data_reply r"
  then obtain tx m where r: "r = Reply 200 tx (Some m)" and "page_ok m" by (rule data_reply_page)
  then obtain kvs es where "m = JObj kvs" "map_of kvs ''body'' = Some (JArr es)" "es \<noteq> []"
    by (auto elim: page_ok_body)
  with r show ?thesis by (simp add: stop_reply_def)
qed

lemma in_step_advance:
  assumes "data_reply r" and "list_all (\<lambda>entry. cursor \<le> beg_time entry) (page_entries r)"
  shows "cursor + 86400 \<le> next_cursor r"
proof -
  from assms(1) have "last (page_entries r) \<in> set (page_entries r)"
    by (simp add: data_reply_entries)
  with assms(2) have "cursor \<le> beg_time (last (page_entries r))" by (simp add: list_all_iff)
  then show ?thesis by (simp add: next_cursor_def)
qed

lemma batch_loop_cursors:
  assumes "list_all (\<lambda>r. data_reply r \<or> stop_reply r) upstream"
    and "in_step date_begin date_end upstream"
    and "date_end - date_begin \<le> 86400 * int (length upstream)"
  shows "\<exists>result cursor w' cs.
           batch_loop upstream access_token device_id module_id scale types date_begin date_end
             limit all_measurements w = Some (Inr (result, cursor), w') \<and>
           sent w' = sent w @
             map (\<lambda>c. GetMeasure access_token device_id module_id scale types c date_end limit) cs \<and>
           sorted (cs @ [cursor]) \<and> (\<forall>c\<in>set (cs @ [cursor]). date_begin \<le> c) \<and>
           length cs \<le> length upstream \<and>
           (date_end \<le> cursor \<or> (cs \<noteq> [] \<and> stop_reply (upstream ! (length cs - 1))))"
  using assms
proof (induction upstream arbitrary: date_begin all_measurements w)
  case Nil
  then have "\<not> date_begin < date_end" by simp
  then show ?case
    by (intro exI [of _ all_measurements] exI [of _ date_begin] exI [of _ w] exI [of _ "[]"])
      (simp add: batch_loop_done)
next
  case (Cons r rest)
  show ?case
  proof (cases "date_begin < date_end")
    case False
    then show ?thesis
      by (intro exI [of _ all_measurements] exI [of _ date_begin] exI [of _ w] exI [of _ "[]"])
        (simp add: batch_loop_done)
  next
    case True
    let ?rq = "GetMeasure access_token device_id module_id scale types date_begin date_end limit"
    show ?thesis
    proof (cases "stop_reply r")
      case stop: True
      show ?thesis
        by (intro exI [of _ all_measurements] exI [of _ date_begin]
            exI [of _ "w\<lparr>sent := sent w @ [?rq]\<rparr>"] exI [of _ "[date_begin]"])
          (simp add: batch_loop_stop [OF True stop] stop)
    next
      case False
      with Cons.prems(1) have data: "data_reply r" and clean: "list_all (\<lambda>r. data_reply r \<or> stop_reply r) rest"
        by simp_all
      from Cons.prems(2) True data
      have fwd: "list_all (\<lambda>entry. date_begin \<le> beg_time entry) (page_entries r)"
        and step: "in_step (next_cursor r) date_end rest" by simp_all
      from in_step_advance [OF data fwd] have adv: "date_begin + 86400 \<le> next_cursor r" .
      with Cons.prems(3) have fuel: "date_end - next_cursor r \<le> 86400 * int (length rest)" by simp
      from Cons.IH [OF clean step fuel, of "all_measurements @ page_entries r"
          "after_page device_id module_id ?rq r w"]
      obtain result cursor w' cs where
        run: "batch_loop rest access_token device_id module_id scale types (next_cursor r) date_end
             limit (all_measurements @ page_entries r) (after_page device_id module_id ?rq r w) =
             Some (Inr (result, cursor), w')" and
        log: "sent w' = sent (after_page device_id module_id ?rq r w) @
             map (\<lambda>c. GetMeasure access_token device_id module_id scale types c date_end limit) cs" and
        srt: "sorted (cs @ [cursor])" and
        low: "\<forall>c\<in>set (cs @ [cursor]). next_cursor r \<le> c" and
        len: "length cs \<le> length rest" and
        fin: "date_end \<le> cursor \<or> (cs \<noteq> [] \<and> stop_reply (rest ! (length cs - 1)))"
        by blast
      from low adv have low': "\<forall>c\<in>set (cs @ [cursor]). date_begin \<le> c" by auto
      have fin': "date_end \<le> cursor \<or>
          (date_begin # cs \<noteq> [] \<and> stop_reply ((r # rest) ! (length (date_begin # cs) - 1)))"
      proof (cases "date_end \<le> cursor")
        case True
        then show ?thesis ..
      next
        case False
        with fin have "cs \<noteq> []" and "stop_reply (rest ! (length cs - 1))" by simp_all
        then have "stop_reply ((r # rest) ! (length (date_begin # cs) - 1))"
          by (cases cs) simp_all
        then show ?thesis by simp
      qed
      have run': "batch_loop (r # rest) access_token device_id module_id scale types date_begin
          date_end limit all_measurements w = Some (Inr (result, cursor), w')"
        unfolding batch_loop_data [OF True data] by (rule run)
      have log': "sent w' = sent w @
          map (\<lambda>c. GetMeasure access_token device_id module_id scale types c date_end limit)
            (date_begin # cs)"
        using log by simp
      have srt': "sorted ((date_begin # cs) @ [cursor])" using srt low' by simp
      have low'': "\<forall>c\<in>set ((date_begin # cs) @ [cursor]). date_begin \<le> c" using low' by simp
      have len': "length (date_begin # cs) \<le> length (r # rest)" using len by simp
      from run' log' srt' low'' len' fin' show ?thesis by blast
    qed
  qed
qed

lemma batch_loop_three_pages:
  assumes "date_begin < date_end" and "data_reply p1" and "data_reply p2" and "data_reply p3"
    and "next_cursor p1 = T + 86400" and "next_cursor p2 = T + 172800"
    and "next_cursor p3 = T + 259200"
    and "T + 172800 < date_end" and "date_end \<le> T + 259200"
  shows "\<exists>w'. batch_loop (p1 # p2 # p3 # later) access_token device_id module_id scale types
             date_begin date_end limit [] w =
             Some (Inr (page_entries p1 @ page_entries p2 @ page_entries p3, T + 259200), w') \<and>
           sent w' = sent w @
             [GetMeasure access_token device_id module_id scale types date_begin date_end limit,
              GetMeasure access_token device_id module_id scale types (T + 86400) date_end limit,
              GetMeasure access_token device_id module_id scale types (T + 172800) date_end limit]"
proof -
  from assms(5,8) have c1: "next_cursor p1 < date_end" by simp
  from assms(6,8) have c2: "next_cursor p2 < date_end" by simp
  from assms(7,9) have c3: "\<not> next_cursor p3 < date_end" by simp
  let ?rq1 = "GetMeasure access_token device_id module_id scale types date_begin date_end limit"
  let ?rq2 = "GetMeasure access_token device_id module_id scale types (next_cursor p1) date_end limit"
  let ?rq3 = "GetMeasure access_token device_id module_id scale types (next_cursor p2) date_end limit"
  let ?w1 = "after_page device_id module_id ?rq1 p1 w"
  let ?w2 = "after_page device_id module_id ?rq2 p2 ?w1"
  let ?w3 = "after_page device_id module_id ?rq3 p3 ?w2"
  have "batch_loop (p1 # p2 # p3 # later) access_token device_id module_id scale types
          date_begin date_end limit [] w =
        batch_loop (p2 # p3 # later) access_token device_id module_id scale types
          (next_cursor p1) date_end limit ([] @ page_entries p1) ?w1"
    by (rule batch_loop_data [OF assms(1,2)])
  also have "\<dots> = batch_loop (p3 # later) access_token device_id module_id scale types
          (next_cursor p2) date_end limit (([] @ page_entries p1) @ page_entries p2) ?w2"
    by (rule batch_loop_data [OF c1 assms(3)])
  also have "\<dots> = batch_loop later access_token device_id module_id scale types
          (next_cursor p3) date_end limit ((([] @ page_entries p1) @ page_entries p2) @ page_entries p3) ?w3"
    by (rule batch_loop_data [OF c2 assms(4)])
  also have "\<dots> = Some (Inr (page_entries p1 @ page_entries p2 @ page_entries p3, T + 259200), ?w3)"
    using c3 by (simp add: batch_loop_done assms(7))
  finally have run: "batch_loop (p1 # p2 # p3 # later) access_token device_id module_id scale types
          date_begin date_end limit [] w =
          Some (Inr (page_entries p1 @ page_entries p2 @ page_entries p3, T + 259200), ?w3)" .
  have "sent ?w3 = sent w @ [?rq1, ?rq2, ?rq3]" by simp
  with run show ?thesis unfolding assms(5,6) by blast
qed

text \<open>A reply with an empty body, for the examples.\<close>

definition example_stop :: http_reply where
  "example_stop = Reply 200 [] (Some (JObj [(''body'', JArr []), (''status'', JStr ''ok'')]))"

lemma example_stop_reply: "stop_reply example_stop"
  by (simp add: example_stop_def stop_reply_def)

lemma example_timestamps:
  "min_timestamp \<le> 1700000000" "1700000000 \<le> max_timestamp"
  "min_timestamp \<le> 1700086400" "1700086400 \<le> max_timestamp"
  "min_timestamp \<le> 1700172800" "1700172800 \<le> max_timestamp"
  by (simp_all add: min_timestamp_def max_timestamp_def)

lemma example_stop_entries: "page_entries example_stop = []"
  by (simp add: example_stop_def page_entries_def)

lemma example_pages_fetched:
  "pages_fetched 1700000000 1700500000
     [example_page 1700000000, example_page 1700086400, example_stop] =
   [example_page 1700000000, example_page 1700086400, example_stop]"
  by (simp add: example_page_entries example_page_cursor example_stop_entries)

theorem batch_returns_concatenation_witness:
  "list_all data_reply [example_page 1700000000, example_page 1700086400] \<and>
   stop_reply example_stop \<and>
   (\<exists>w'.
      get_historical_measurements_batch
        [example_page 1700000000, example_page 1700086400, example_stop]
        ''token'' ''70:ee:50:00:00:01'' ''02:00:00:00:00:01'' ''1day''
        ''Temperature,Humidity,Pressure'' 1700000000 1700500000 1024 initial_world =
        Some (Inr
          [JObj [(''beg_time'', JInt 1700000000), (''step_time'', JInt 86400),
                 (''value'', JArr [JArr [JInt 21, JInt 40, JInt 1013]])],
           JObj [(''beg_time'', JInt 1700086400), (''step_time'', JInt 86400),
                 (''value'', JArr [JArr [JInt 21, JInt 40, JInt 1013]])]], w') \<and>
      length (sent w') = 3)"
proof -
  let ?up = "[example_page 1700000000, example_page 1700086400, example_stop]"
  have pages: "list_all data_reply [example_page 1700000000, example_page 1700086400]"
    by (simp add: example_page_data example_timestamps)
  have parts: "?up = [example_page 1700000000, example_page 1700086400] @ example_stop # []"
    by simp
  note inst = batch_returns_concatenation [of ?up "''token''" "''70:ee:50:00:00:01''"
      "''02:00:00:00:00:01''" "''1day''" "''Temperature,Humidity,Pressure''" 1700000000 1700500000
      1024 initial_world "[example_page 1700000000, example_page 1700086400]" example_stop "[]"]
  from inst pages example_stop_reply parts obtain w' where
    run: "get_historical_measurements_batch ?up ''token'' ''70:ee:50:00:00:01''
        ''02:00:00:00:00:01'' ''1day'' ''Temperature,Humidity,Pressure'' 1700000000 1700500000 1024
        initial_world =
        Some (Inr (concat (map page_entries (pages_fetched 1700000000 1700500000 ?up))), w')"
    and n: "length (sent w') =
        length (sent initial_world) + length (pages_fetched 1700000000 1700500000 ?up)"
    by blast
  have "concat (map page_entries (pages_fetched 1700000000 1700500000 ?up)) =
      [JObj [(''beg_time'', JInt 1700000000), (''step_time'', JInt 86400),
             (''value'', JArr [JArr [JInt 21, JInt 40, JInt 1013]])],
       JObj [(''beg_time'', JInt 1700086400), (''step_time'', JInt 86400),
             (''value'', JArr [JArr [JInt 21, JInt 40, JInt 1013]])]]"
    unfolding example_pages_fetched by (simp add: example_page_entries example_stop_entries)
  moreover have "length (sent initial_world) + length (pages_fetched 1700000000 1700500000 ?up) = 3"
    unfolding example_pages_fetched by (simp add: initial_world_def)
  ultimately show ?thesis using run n pages example_stop_reply by auto
qed

theorem batch_stops_after_first_page_witness:
  "(1700000000::int) < 1700500000 \<and> data_reply (example_page 1700000000) \<and>
   stop_reply (Reply 503 ''busy'' None) \<and>
   (\<exists>w'. get_historical_measurements_batch
        [example_page 1700000000, Reply 503 ''busy'' None, example_page 1700086400]
        ''token'' ''70:ee:50:00:00:01'' ''02:00:00:00:00:01'' ''1day''
        ''Temperature,Humidity,Pressure'' 1700000000 1700500000 1024 initial_world =
        Some (Inr (page_entries (example_page 1700000000)), w') \<and>
      length (sent w') = 2)"
proof -
  have lt: "(1700000000::int) < 1700500000" by simp
  have p: "data_reply (example_page 1700000000)"
    by (simp add: example_page_data example_timestamps)
  have s: "stop_reply (Reply 503 ''busy'' None)" by (simp add: stop_reply_def)
  from batch_stops_after_first_page [OF lt p s, of "[example_page 1700086400]" "''token''"
      "''70:ee:50:00:00:01''" "''02:00:00:00:00:01''" "''1day''"
      "''Temperature,Humidity,Pressure''" 1024 initial_world]
  obtain w' where "get_historical_measurements_batch
        [example_page 1700000000, Reply 503 ''busy'' None, example_page 1700086400]
        ''token'' ''70:ee:50:00:00:01'' ''02:00:00:00:00:01'' ''1day''
        ''Temperature,Humidity,Pressure'' 1700000000 1700500000 1024 initial_world =
        Some (Inr (page_entries (example_page 1700000000)), w')"
    and "length (sent w') = 2"
    by (auto simp: example_page_cursor initial_world_def)
  with lt p s show ?thesis by blast
qed

text \<open>
  C5. The cursor \<^verbatim>\<open>date_begin\<close> of the loop. First, one iteration: the loop ends when the
  cursor has reached \<^verbatim>\<open>date_end\<close> or the reply ends it, and otherwise goes on with the
  cursor set to the \<^verbatim>\<open>beg_time\<close> of the last entry plus 86400. Second, if every entry
  begins at or after the cursor of its request, and there are enough replies, the loop
  returns, the cursors of its requests and the final cursor never decrease, and it has
  stopped because the cursor reached \<^verbatim>\<open>date_end\<close> or the last reply ended it. Third, for
  three pages whose last entries begin at \<open>T\<close>, \<open>T + 86400\<close> and \<open>T + 172800\<close>, and
  a \<^verbatim>\<open>date_end\<close> after \<open>T + 172800\<close> and not after \<open>T + 259200\<close>, the loop sends
  exactly three requests and ends with the cursor at \<open>T + 259200\<close>.
\<close>

theorem batch_cursor:
  "(data_reply r \<or> stop_reply r \<longrightarrow>
      batch_loop (r # rest) access_token device_id module_id scale types date_begin date_end limit
        all_measurements w =
      (if date_end \<le> date_begin then Some (Inr (all_measurements, date_begin), w)
       else if stop_reply r then
         Some (Inr (all_measurements, date_begin),
           w\<lparr>sent := sent w @
             [GetMeasure access_token device_id module_id scale types date_begin date_end limit]\<rparr>)
       else
         batch_loop rest access_token device_id module_id scale types
           (beg_time (last (page_entries r)) + 86400) date_end limit
           (all_measurements @ page_entries r)
           (after_page device_id module_id
              (GetMeasure access_token device_id module_id scale types date_begin date_end limit)
              r w))) \<and>
   (list_all (\<lambda>r. data_reply r \<or> stop_reply r) upstream \<and>
    in_step date_begin date_end upstream \<and>
    date_end - date_begin \<le> 86400 * int (length upstream) \<longrightarrow>
      (\<exists>result cursor w' cs.
         batch_loop upstream access_token device_id module_id scale types date_begin date_end
           limit all_measurements w = Some (Inr (result, cursor), w') \<and>
         sent w' = sent w @
           map (\<lambda>c. GetMeasure access_token device_id module_id scale types c date_end limit) cs \<and>
         sorted (cs @ [cursor]) \<and> (\<forall>c\<in>set (cs @ [cursor]). date_begin \<le> c) \<and>
         length cs \<le> length upstream \<and>
         (date_end \<le> cursor \<or> (cs \<noteq> [] \<and> stop_reply (upstream ! (length cs - 1)))))) \<and>
   (date_begin < date_end \<and> data_reply p1 \<and> data_reply p2 \<and> data_reply p3 \<and>
    beg_time (last (page_entries p1)) = T \<and>
    beg_time (last (page_entries p2)) = T + 86400 \<and>
    beg_time (last (page_entries p3)) = T + 172800 \<and>
    T + 172800 < date_end \<and> date_end \<le> T + 259200 \<longrightarrow>
      (\<exists>w'. batch_loop (p1 # p2 # p3 # later) access_token device_id module_id scale types
           date_begin date_end limit [] w =
           Some (Inr (page_entries p1 @ page_entries p2 @ page_entries p3, T + 259200), w') \<and>
         sent w' = sent w @
           [GetMeasure access_token device_id module_id scale types date_begin date_end limit,
            GetMeasure access_token device_id module_id scale types (T + 86400) date_end limit,
            GetMeasure access_token device_id module_id scale types (T + 172800) date_end limit]))"
proof (intro conjI impI)
  assume clean: "data_reply r \<or> stop_reply r"
  show "batch_loop (r # rest) access_token device_id module_id scale types date_begin date_end limit
        all_measurements w =
      (if date_end \<le> date_begin then Some (Inr (all_measurements, date_begin), w)
       else if stop_reply r then
         Some (Inr (all_measurements, date_begin),
           w\<lparr>sent := sent w @
             [GetMeasure access_token device_id module_id scale types date_begin date_end limit]\<rparr>)
       else
         batch_loop rest access_token device_id module_id scale types
           (beg_time (last (page_entries r)) + 86400) date_end limit
           (all_measurements @ page_entries r)
           (after_page device_id module_id
              (GetMeasure access_token device_id module_id scale types date_begin date_end limit)
              r w))"
  proof (cases "date_begin < date_end")
    case False
    then show ?thesis by (simp add: batch_loop_done)
  next
    case True
    show ?thesis
    proof (cases "stop_reply r")
      case stop: True
      with True show ?thesis by (simp add: batch_loop_stop)
    next
      case False
      with clean have "data_reply r" by simp
      from batch_loop_data [OF True this] True False show ?thesis
        by (simp add: next_cursor_def)
    qed
  qed
next
  assume "list_all (\<lambda>r. data_reply r \<or> stop_reply r) upstream \<and>
    in_step date_begin date_end upstream \<and>
    date_end - date_begin \<le> 86400 * int (length upstream)"
  then show "\<exists>result cursor w' cs.
         batch_loop upstream access_token device_id module_id scale types date_begin date_end
           limit all_measurements w = Some (Inr (result, cursor), w') \<and>
         sent w' = sent w @
           map (\<lambda>c. GetMeasure access_token device_id module_id scale types c date_end limit) cs \<and>
         sorted (cs @ [cursor]) \<and> (\<forall>c\<in>set (cs @ [cursor]). date_begin \<le> c) \<and>
         length cs \<le> length upstream \<and>
         (date_end \<le> cursor \<or> (cs \<noteq> [] \<and> stop_reply (upstream ! (length cs - 1))))"
    by (intro batch_loop_cursors) simp_all
next
  assume a: "date_begin < date_end \<and> data_reply p1 \<and> data_reply p2 \<and> data_reply p3 \<and>
    beg_time (last (page_entries p1)) = T \<and>
    beg_time (last (page_entries p2)) = T + 86400 \<and>
    beg_time (last (page_entries p3)) = T + 172800 \<and>
    T + 172800 < date_end \<and> date_end \<le> T + 259200"
  then have "next_cursor p1 = T + 86400" "next_cursor p2 = T + 172800"
    "next_cursor p3 = T + 259200"
    by (simp_all add: next_cursor_def)
  with a show "\<exists>w'. batch_loop (p1 # p2 # p3 # later) access_token device_id module_id scale types
           date_begin date_end limit [] w =
           Some (Inr (page_entries p1 @ page_entries p2 @ page_entries p3, T + 259200), w') \<and>
         sent w' = sent w @
           [GetMeasure access_token device_id module_id scale types date_begin date_end limit,
            GetMeasure access_token device_id module_id scale types (T + 86400) date_end limit,
            GetMeasure access_token device_id module_id scale types (T + 172800) date_end limit]"
    by (intro batch_loop_three_pages) simp_all
qed

text \<open>Three daily pages.\<close>

definition example_three_pages :: "http_reply list" where
  "example_three_pages =
     [example_page 1700000000, example_page 1700086400, example_page 1700172800]"

theorem batch_cursor_witness:
  "list_all (\<lambda>r. data_reply r \<or> stop_reply r) example_three_pages \<and>
   in_step 1700000000 1700259200 example_three_pages \<and>
   1700259200 - 1700000000 \<le> 86400 * int (length example_three_pages) \<and>
   (\<exists>w'. batch_loop example_three_pages ''token'' ''70:ee:50:00:00:01'' ''02:00:00:00:00:01''
        ''1day'' ''Temperature,Humidity,Pressure'' 1700000000 1700259200 1024 [] initial_world =
        Some (Inr (concat (map page_entries example_three_pages), 1700259200), w') \<and>
      sent w' =
        [GetMeasure ''token'' ''70:ee:50:00:00:01'' ''02:00:00:00:00:01'' ''1day''
           ''Temperature,Humidity,Pressure'' 1700000000 1700259200 1024,
         GetMeasure ''token'' ''70:ee:50:00:00:01'' ''02:00:00:00:00:01'' ''1day''
           ''Temperature,Humidity,Pressure'' 1700086400 1700259200 1024,
         GetMeasure ''token'' ''70:ee:50:00:00:01'' ''02:00:00:00:00:01'' ''1day''
           ''Temperature,Humidity,Pressure'' 1700172800 1700259200 1024])"
proof -
  have d: "data_reply (example_page 1700000000)" "data_reply (example_page 1700086400)"
    "data_reply (example_page 1700172800)"
    by (simp_all add: example_page_data example_timestamps)
  then have clean: "list_all (\<lambda>r. data_reply r \<or> stop_reply r) example_three_pages"
    by (simp add: example_three_pages_def)
  have b: "beg_time (last (page_entries (example_page 1700000000))) = 1700000000"
    "beg_time (last (page_entries (example_page 1700086400))) = 1700000000 + 86400"
    "beg_time (last (page_entries (example_page 1700172800))) = 1700000000 + 172800"
    by (simp_all add: example_page_entries beg_time_def)
  have step: "in_step 1700000000 1700259200 example_three_pages"
    by (simp add: example_three_pages_def example_page_entries example_page_cursor beg_time_def)
  have fuel: "(1700259200::int) - 1700000000 \<le> 86400 * int (length example_three_pages)"
    by (simp add: example_three_pages_def)
  have hyp: "(1700000000::int) < 1700259200 \<and>
    data_reply (example_page 1700000000) \<and> data_reply (example_page 1700086400) \<and>
    data_reply (example_page 1700172800) \<and>
    beg_time (last (page_entries (example_page 1700000000))) = 1700000000 \<and>
    beg_time (last (page_entries (example_page 1700086400))) = 1700000000 + 86400 \<and>
    beg_time (last (page_entries (example_page 1700172800))) = 1700000000 + 172800 \<and>
    (1700000000::int) + 172800 < 1700259200 \<and> (1700259200::int) \<le> 1700000000 + 259200"
    using d b by simp
  have "\<exists>w'. batch_loop
        (example_page 1700000000 # example_page 1700086400 # example_page 1700172800 # [])
        ''token'' ''70:ee:50:00:00:01'' ''02:00:00:00:00:01''
        ''1day'' ''Temperature,Humidity,Pressure'' 1700000000 1700259200 1024 [] initial_world =
        Some (Inr (page_entries (example_page 1700000000) @ page_entries (example_page 1700086400) @
                page_entries (example_page 1700172800), 1700000000 + 259200), w') \<and>
      sent w' = sent initial_world @
        [GetMeasure ''token'' ''70:ee:50:00:00:01'' ''02:00:00:00:00:01'' ''1day''
           ''Temperature,Humidity,Pressure'' 1700000000 1700259200 1024,
         GetMeasure ''token'' ''70:ee:50:00:00:01'' ''02:00:00:00:00:01'' ''1day''
           ''Temperature,Humidity,Pressure'' (1700000000 + 86400) 1700259200 1024,
         GetMeasure ''token'' ''70:ee:50:00:00:01'' ''02:00:00:00:00:01'' ''1day''
           ''Temperature,Humidity,Pressure'' (1700000000 + 172800) 1700259200 1024]"
    by (rule mp [OF batch_cursor [where access_token = "''token''"
      and device_id = "''70:ee:50:00:00:01''"
      and module_id = "''02:00:00:00:00:01''" and scale = "''1day''"
      and types = "''Temperature,Humidity,Pressure''" and date_begin = 1700000000
      and date_end = 1700259200 and limit = 1024 and w = initial_world
      and ?p1.0 = "example_page 1700000000" and ?p2.0 = "example_page 1700086400"
      and ?p3.0 = "example_page 1700172800" and T = 1700000000 and later = "[]",
      THEN conjunct2, THEN conjunct2] hyp])
  then have "\<exists>w'. batch_loop example_three_pages ''token'' ''70:ee:50:00:00:01''
        ''02:00:00:00:00:01''
        ''1day'' ''Temperature,Humidity,Pressure'' 1700000000 1700259200 1024 [] initial_world =
        Some (Inr (concat (map page_entries example_three_pages), 1700259200), w') \<and>
      sent w' =
        [GetMeasure ''token'' ''70:ee:50:00:00:01'' ''02:00:00:00:00:01'' ''1day''
           ''Temperature,Humidity,Pressure'' 1700000000 1700259200 1024,
         GetMeasure ''token'' ''70:ee:50:00:00:01'' ''02:00:00:00:00:01'' ''1day''
           ''Temperature,Humidity,Pressure'' 1700086400 1700259200 1024,
         GetMeasure ''token'' ''70:ee:50:00:00:01'' ''02:00:00:00:00:01'' ''1day''
           ''Temperature,Humidity,Pressure'' 1700172800 1700259200 1024]"
    by (simp add: example_three_pages_def initial_world_def)
  with clean step fuel show ?thesis by blast
qed

subsection \<open>Acquisition times in the file\<close>

text \<open>
  \<open>per_entry_rows\<close> are the rows of a body when the values of every entry are stamped
  from that entry's own \<^verbatim>\<open>beg_time\<close>, in steps of 86400: what a measurement batch is said
  to hold. \<open>example_gap_page\<close> has two entries of one value each, the first beginning on
  1970-01-01 and the second ten days later.
\<close>

fun per_entry_rows :: "json list \<Rightarrow> csv_row list" where
  "per_entry_rows [] = []"
| "per_entry_rows (entry # entries) =
     running_rows (beg_time entry) (entry_values entry) @ per_entry_rows entries"

definition example_gap_page :: json where
  "example_gap_page =
     JObj [(''body'',
        JArr [JObj [(''beg_time'', JInt 0), (''step_time'', JInt 86400),
                    (''value'', JArr [JArr [JInt 1, JInt 2, JInt 3]])],
              JObj [(''beg_time'', JInt 864000), (''step_time'', JInt 86400),
                    (''value'', JArr [JArr [JInt 4, JInt 5, JInt 6]])]])]"

lemma example_stamps:
  "strftime_YmdHM (utc_datetime 0) = ''197001010000''"
  "strftime_YmdHM (utc_datetime 86400) = ''197001020000''"
  "strftime_YmdHM (utc_datetime 864000) = ''197001110000''"
  by code_simp+

lemma example_fields:
  "str_int 1 = ''1''" "str_int 2 = ''2''" "str_int 3 = ''3''"
  "str_int 4 = ''4''" "str_int 5 = ''5''" "str_int 6 = ''6''"
  by code_simp+

lemma example_gap_page_ok: "page_ok example_gap_page"
  by (simp add: example_gap_page_def page_ok_def entry_ok_def row_ok_def stamps_ok_def
      entry_values_def beg_time_def min_timestamp_def max_timestamp_def)

lemma example_gap_page_entries:
  "page_entries (Reply 200 [] (Some example_gap_page)) =
     [JObj [(''beg_time'', JInt 0), (''step_time'', JInt 86400),
            (''value'', JArr [JArr [JInt 1, JInt 2, JInt 3]])],
      JObj [(''beg_time'', JInt 864000), (''step_time'', JInt 86400),
            (''value'', JArr [JArr [JInt 4, JInt 5, JInt 6]])]]"
  by (simp add: example_gap_page_def page_entries_def)

text \<open>
  C6 does not hold of the code. \<^verbatim>\<open>save_measurements_to_csv\<close> reads \<^verbatim>\<open>beg_time\<close> once, from
  the first entry of the body, and adds 86400 after every value of every entry; the
  \<^verbatim>\<open>beg_time\<close> of a later entry is never read. For \<open>example_gap_page\<close> the value of the
  second entry, which begins on 1970-01-11, is written with 1970-01-02; stamped from its
  own entry it would be written with 1970-01-11. The caller in the same file,
  \<^verbatim>\<open>get_historical_measurements_batch\<close>, does take the \<^verbatim>\<open>beg_time\<close> of the last entry as
  the last timestamp of the data: after this page its cursor is 864000 + 86400.
\<close>

theorem save_measurements_gap_page:
  "save_measurements_to_csv example_gap_page ''70:ee:50:00:00:01'' ''02:00:00:00:00:01''
     initial_world =
     (Inr (),
      initial_world\<lparr>files := (files initial_world)
        (''70ee50000001_020000000001_measurements.csv'' :=
           [[''acquisition_time'', ''temperature'', ''humidity'', ''pressure''],
            [''197001010000'', ''1'', ''2'', ''3''],
            [''197001020000'', ''4'', ''5'', ''6'']])\<rparr>) \<and>
   per_entry_rows (page_entries (Reply 200 [] (Some example_gap_page))) =
     [[''197001010000'', ''1'', ''2'', ''3''],
      [''197001110000'', ''4'', ''5'', ''6'']] \<and>
   next_cursor (Reply 200 [] (Some example_gap_page)) = 864000 + 86400"
proof (intro conjI)
  have name: "measurements_filename ''70:ee:50:00:00:01'' ''02:00:00:00:00:01'' =
      ''70ee50000001_020000000001_measurements.csv''"
    by (simp add: measurements_filename_def)
  show "save_measurements_to_csv example_gap_page ''70:ee:50:00:00:01'' ''02:00:00:00:00:01''
     initial_world =
     (Inr (),
      initial_world\<lparr>files := (files initial_world)
        (''70ee50000001_020000000001_measurements.csv'' :=
           [[''acquisition_time'', ''temperature'', ''humidity'', ''pressure''],
            [''197001010000'', ''1'', ''2'', ''3''],
            [''197001020000'', ''4'', ''5'', ''6'']])\<rparr>)"
    unfolding save_measurements_to_csv_ok [OF example_gap_page_ok, of _ _ _ "[]"]
      example_gap_page_entries name
    by (simp add: append_rows_def header_rows_def initial_world_def entry_values_def beg_time_def
        measurement_row_def example_stamps example_fields)
  show "per_entry_rows (page_entries (Reply 200 [] (Some example_gap_page))) =
     [[''197001010000'', ''1'', ''2'', ''3''],
      [''197001110000'', ''4'', ''5'', ''6'']]"
    unfolding example_gap_page_entries
    by (simp add: entry_values_def beg_time_def measurement_row_def example_stamps example_fields)
  show "next_cursor (Reply 200 [] (Some example_gap_page)) = 864000 + 86400"
    unfolding next_cursor_def example_gap_page_entries by (simp add: beg_time_def)
qed

section \<open>Failures that are handled, and failures that are not\<close>

text \<open>A reply that \<^verbatim>\<open>get_ids\<close> returns from at once.\<close>

definition good_reply :: "http_reply \<Rightarrow> bool" where
  "good_reply r =
     (case r of
        Reply st txt (Some (JObj kvs)) \<Rightarrow>
          \<not> (400 \<le> st \<and> st < 600) \<and>
          (case map_of kvs ''body'' of
             Some (JArr stations) \<Rightarrow> stations \<noteq> [] \<and> list_all station_ok stations
           | _ \<Rightarrow> False)
      | _ \<Rightarrow> False)"

lemma attempt_good:
  assumes "good_reply r"
  shows "\<exists>ids. attempt [] r = Inr ids"
proof -
  from assms obtain st tx p where r: "r = Reply st tx p"
    by (cases r) (simp_all add: good_reply_def)
  with assms obtain j where p: "p = Some j" by (cases p) (simp_all add: good_reply_def)
  with assms r obtain kvs where j: "j = JObj kvs" by (cases j) (simp_all add: good_reply_def)
  with assms r p obtain b where b: "map_of kvs ''body'' = Some b"
    by (cases "map_of kvs ''body''") (simp_all add: good_reply_def)
  with assms r p j obtain stations where s: "b = JArr stations"
    by (cases b) (simp_all add: good_reply_def)
  from assms r p j b s have st: "\<not> (400 \<le> st \<and> st < 600)" and ne: "stations \<noteq> []"
    and ok: "list_all station_ok stations"
    by (simp_all add: good_reply_def)
  from stations_loop_ok [OF ok, of "[]"] obtain ids where
    loop: "stations_loop [] stations = Inr ids" and
    keys: "set (dict_keys ids) = key_norm ` station_id ` set stations"
    by (auto simp: dict_keys_def)
  from keys ne have "ids \<noteq> []" by (auto simp: dict_keys_def)
  with r p j b s st loop show ?thesis
    by (simp add: attempt_def raise_for_status_def response_json_def)
qed

lemma get_ids_loop_returns:
  assumes "list_all (\<lambda>r. failed_attempt r \<or> good_reply r) upstream"
    and "6 \<le> n + length upstream" and "n \<le> 5"
  shows "\<exists>ids w'. get_ids_loop upstream rq [] n w = Some (Inr ids, w')"
  using assms
proof (induction upstream arbitrary: n w)
  case Nil
  then show ?case by simp
next
  case (Cons r rest)
  from Cons.prems(1) have r: "failed_attempt r \<or> good_reply r"
    and rest: "list_all (\<lambda>r. failed_attempt r \<or> good_reply r) rest" by simp_all
  show ?case
  proof (cases "good_reply r")
    case True
    from attempt_good [OF this] obtain ids where "attempt [] r = Inr ids" ..
    then show ?thesis by (simp add: Let_def)
  next
    case False
    with r have f: "failed_attempt r" by simp
    show ?thesis
    proof (cases "n < 5")
      case False
      from attempt_failed [OF f] show ?thesis
        using False by (auto simp: Let_def)
    next
      case True
      with Cons.prems(2) have "6 \<le> Suc n + length rest" "Suc n \<le> 5" by simp_all
      from Cons.IH [OF rest this] have
        ih: "\<And>w. \<exists>ids w'. get_ids_loop rest rq [] (Suc n) w = Some (Inr ids, w')" .
      from attempt_failed [OF f] show ?thesis
      proof
        assume "\<exists>st. attempt [] r = Inl (HTTPError st)"
        then obtain st where "attempt [] r = Inl (HTTPError st)" ..
        with True ih show ?thesis by (simp add: Let_def)
      next
        assume "attempt [] r = Inl NameError"
        with True ih show ?thesis by (simp add: Let_def)
      qed
    qed
  qed
qed

lemma batch_loop_total_pages:
  assumes "list_all data_reply pages" and "stop_reply s"
  shows "\<exists>k\<le>length pages. \<exists>cursor w'.
           batch_loop (pages @ s # later) access_token device_id module_id scale types date_begin
             date_end limit all_measurements w =
           Some (Inr (all_measurements @ concat (map page_entries (take k pages)), cursor), w')"
  using assms(1)
proof (induction pages arbitrary: date_begin all_measurements w)
  case Nil
  show ?case
    by (cases "date_begin < date_end") (simp_all add: batch_loop_stop [OF _ assms(2)] batch_loop_done)
next
  case (Cons r pages)
  then have r: "data_reply r" and rest: "list_all data_reply pages" by simp_all
  show ?case
  proof (cases "date_begin < date_end")
    case True
    let ?rq = "GetMeasure access_token device_id module_id scale types date_begin date_end limit"
    from Cons.IH [OF rest, of "next_cursor r" "all_measurements @ page_entries r"
        "after_page device_id module_id ?rq r w"]
    obtain k cursor w' where k: "k \<le> length pages" and
      "batch_loop (pages @ s # later) access_token device_id module_id scale types (next_cursor r)
         date_end limit (all_measurements @ page_entries r) (after_page device_id module_id ?rq r w) =
       Some (Inr ((all_measurements @ page_entries r) @ concat (map page_entries (take k pages)),
         cursor), w')"
      by blast
    then have "batch_loop ((r # pages) @ s # later) access_token device_id module_id scale types
        date_begin date_end limit all_measurements w =
       Some (Inr (all_measurements @ concat (map page_entries (take (Suc k) (r # pages))),
         cursor), w')"
      by (simp add: batch_loop_data [OF True r])
    with k show ?thesis by (intro exI [of _ "Suc k"]) auto
  next
    case False
    then have "batch_loop ((r # pages) @ s # later) access_token device_id module_id scale types
        date_begin date_end limit all_measurements w =
       Some (Inr (all_measurements @ concat (map page_entries (take 0 (r # pages))), date_begin), w)"
      by (simp add: batch_loop_done)
    then show ?thesis by (intro exI [of _ 0]) auto
  qed
qed

text \<open>
  Three calls that end in an exception: \<^verbatim>\<open>get_ids\<close> on a response without \<^verbatim>\<open>body\<close>,
  \<^verbatim>\<open>get_historical_measurements\<close> when the request itself fails, and
  \<^verbatim>\<open>get_historical_measurements_batch\<close> on an entry without \<^verbatim>\<open>beg_time\<close>.
\<close>

theorem failures_counterexample:
  "get_ids [Reply 200 ''{}'' (Some (JObj []))] ''token'' 49 9 48 8 initial_world =
     Some (Inl KeyError, initial_world\<lparr>sent := [GetPublicData ''token'' 49 9 48 8]\<rparr>) \<and>
   get_historical_measurements [NoReply] ''token'' ''70:ee:50:00:00:01'' ''02:00:00:00:00:01''
     ''1day'' ''Temperature'' 0 86400 1024 initial_world =
     Some (Inl RequestException, [],
       initial_world\<lparr>sent := [GetMeasure ''token'' ''70:ee:50:00:00:01'' ''02:00:00:00:00:01''
         ''1day'' ''Temperature'' 0 86400 1024]\<rparr>) \<and>
   get_historical_measurements_batch
     [Reply 200 [] (Some (JObj [(''body'', JArr [JObj [(''value'', JArr [])]])]))]
     ''token'' ''70:ee:50:00:00:01'' ''02:00:00:00:00:01'' ''1day'' ''Temperature'' 0 86400 1024
     initial_world =
     Some (Inl KeyError,
       initial_world\<lparr>sent := [GetMeasure ''token'' ''70:ee:50:00:00:01'' ''02:00:00:00:00:01''
         ''1day'' ''Temperature'' 0 86400 1024]\<rparr>)"
  by (simp add: get_ids_def attempt_def raise_for_status_def response_json_def initial_world_def
      get_historical_measurements_def get_historical_measurements_batch_def batch_loop.simps
      no_more_data_def seq_index_def Let_def)

text \<open>
  C8, for the failures the code handles. If every reply is an HTTP error, an empty
  station list or a well-formed station list, \<^verbatim>\<open>get_ids\<close> returns a mapping. For every
  status other than 200, \<^verbatim>\<open>get_historical_measurements\<close> returns \<^verbatim>\<open>None\<close>. If the replies
  are well-formed pages followed by a failed or empty reply,
  \<^verbatim>\<open>get_historical_measurements_batch\<close> returns the entries of the pages it fetched.
\<close>

theorem handled_failures_do_not_raise:
  "(list_all (\<lambda>r. failed_attempt r \<or> good_reply r) upstream \<and> 6 \<le> length upstream \<longrightarrow>
      (\<exists>ids w'. get_ids upstream access_token lat_ne lon_ne lat_sw lon_sw w = Some (Inr ids, w'))) \<and>
   (st \<noteq> 200 \<longrightarrow>
      get_historical_measurements (Reply st tx p # rest) access_token device_id module_id scale
        types date_begin date_end limit w =
      Some (Inr JNull, rest,
        w\<lparr>sent := sent w @
          [GetMeasure access_token device_id module_id scale types date_begin date_end limit]\<rparr>)) \<and>
   (list_all data_reply pages \<and> stop_reply s \<longrightarrow>
      (\<exists>result w'.
         get_historical_measurements_batch (pages @ s # later) access_token device_id module_id
           scale types date_begin date_end limit w = Some (Inr result, w') \<and>
         (\<exists>n\<le>length pages. result = concat (map page_entries (take n pages)))))"
proof (intro conjI impI)
  assume "list_all (\<lambda>r. failed_attempt r \<or> good_reply r) upstream \<and> 6 \<le> length upstream"
  then show "\<exists>ids w'. get_ids upstream access_token lat_ne lon_ne lat_sw lon_sw w = Some (Inr ids, w')"
    unfolding get_ids_def by (intro get_ids_loop_returns) simp_all
next
  assume "st \<noteq> 200"
  then show "get_historical_measurements (Reply st tx p # rest) access_token device_id module_id
        scale types date_begin date_end limit w =
      Some (Inr JNull, rest,
        w\<lparr>sent := sent w @
          [GetMeasure access_token device_id module_id scale types date_begin date_end limit]\<rparr>)"
    by (simp add: get_historical_measurements_def)
next
  assume a: "list_all data_reply pages \<and> stop_reply s"
  then have pages: "list_all data_reply pages" and s: "stop_reply s" by simp_all
  from batch_loop_total_pages [OF pages s, of later access_token device_id module_id scale types
      date_begin date_end limit "[]" w]
  obtain k cursor w' where k: "k \<le> length pages" and
    run: "batch_loop (pages @ s # later) access_token device_id
      module_id scale types date_begin date_end limit [] w =
      Some (Inr ([] @ concat (map page_entries (take k pages)), cursor), w')"
    by blast
  from k have "\<exists>n\<le>length pages.
      concat (map page_entries (take k pages)) = concat (map page_entries (take n pages))"
    by blast
  with run show "\<exists>result w'.
         get_historical_measurements_batch (pages @ s # later) access_token device_id module_id
           scale types date_begin date_end limit w = Some (Inr result, w') \<and>
         (\<exists>n\<le>length pages. result = concat (map page_entries (take n pages)))"
    by (simp add: get_historical_measurements_batch_def)
qed

theorem handled_failures_do_not_raise_witness:
  "list_all (\<lambda>r. failed_attempt r \<or> good_reply r) example_failures \<and>
   6 \<le> length example_failures \<and>
   (\<exists>ids w'. get_ids example_failures ''token'' 49 9 48 8 initial_world = Some (Inr ids, w')) \<and>
   (503::nat) \<noteq> 200 \<and>
   get_historical_measurements [Reply 503 ''busy'' None] ''token'' ''70:ee:50:00:00:01''
     ''02:00:00:00:00:01'' ''1day'' ''Temperature'' 0 86400 1024 initial_world =
     Some (Inr JNull, [],
       initial_world\<lparr>sent := sent initial_world @
         [GetMeasure ''token'' ''70:ee:50:00:00:01'' ''02:00:00:00:00:01'' ''1day''
            ''Temperature'' 0 86400 1024]\<rparr>) \<and>
   list_all data_reply [example_page 1700000000] \<and> stop_reply example_stop \<and>
   (\<exists>result w'.
      get_historical_measurements_batch [example_page 1700000000, example_stop] ''token''
        ''70:ee:50:00:00:01'' ''02:00:00:00:00:01'' ''1day'' ''Temperature'' 1700000000
        1700500000 1024 initial_world = Some (Inr result, w'))"
proof -
  have f: "list_all (\<lambda>r. failed_attempt r \<or> good_reply r) example_failures"
    "6 \<le> length example_failures"
    by (simp_all add: example_failures_def failed_attempt_def)
  have p: "list_all data_reply [example_page 1700000000]"
    by (simp add: example_page_data example_timestamps)
  note inst = handled_failures_do_not_raise [where upstream = example_failures
      and access_token = "''token''" and lat_ne = 49 and lon_ne = 9 and lat_sw = 48 and lon_sw = 8
      and w = initial_world and st = 503 and tx = "''busy''" and p = None and rest = "[]"
      and device_id = "''70:ee:50:00:00:01''" and module_id = "''02:00:00:00:00:01''"
      and scale = "''1day''" and types = "''Temperature''" and date_begin = 1700000000
      and date_end = 1700500000 and limit = 1024 and pages = "[example_page 1700000000]"
      and s = example_stop and later = "[]"]
  from inst f have a: "\<exists>ids w'. get_ids example_failures ''token'' 49 9 48 8 initial_world =
      Some (Inr ids, w')"
    by blast
  have b: "get_historical_measurements [Reply 503 ''busy'' None] ''token'' ''70:ee:50:00:00:01''
     ''02:00:00:00:00:01'' ''1day'' ''Temperature'' 0 86400 1024 initial_world =
     Some (Inr JNull, [],
       initial_world\<lparr>sent := sent initial_world @
         [GetMeasure ''token'' ''70:ee:50:00:00:01'' ''02:00:00:00:00:01'' ''1day''
            ''Temperature'' 0 86400 1024]\<rparr>)"
    by (rule mp [OF handled_failures_do_not_raise [where st = 503, THEN conjunct2, THEN conjunct1]])
      simp
  from inst p example_stop_reply have c: "\<exists>result w'.
      get_historical_measurements_batch [example_page 1700000000, example_stop] ''token''
        ''70:ee:50:00:00:01'' ''02:00:00:00:00:01'' ''1day'' ''Temperature'' 1700000000
        1700500000 1024 initial_world = Some (Inr result, w')"
    by auto
  from f a b p example_stop_reply c show ?thesis by simp
qed

section \<open>The station directory\<close>

subsection \<open>\<^verbatim>\<open>save_netatmo_data_to_csv\<close>\<close>

text \<open>
  \<^verbatim>\<open>latitude, longitude = value['location']\<close> unpacks an iterable of exactly two
  elements; another number of elements is a \<^verbatim>\<open>ValueError\<close>.
\<close>

definition unpack_pair :: "json \<Rightarrow> (json \<times> json) result" where
  "unpack_pair v =
     and_then (py_iter v) (\<lambda>xs. case xs of [a, b] \<Rightarrow> Inr (a, b) | _ \<Rightarrow> Inl ValueError)"

text \<open>The loop \<^verbatim>\<open>for mac_address, value in ids.items()\<close>, one row for each station.\<close>

fun write_stations :: "string \<Rightarrow> ids \<Rightarrow> world \<Rightarrow> unit result \<times> world" where
  "write_stations csv_file [] w = (Inr (), w)"
| "write_stations csv_file ((mac_address, value) # rest) w =
     (case unpack_pair (location value) of
        Inl e \<Rightarrow> (Inl e, w)
      | Inr (latitude, longitude) \<Rightarrow>
          write_stations csv_file rest
            (append_row csv_file
               [csv_field mac_address, csv_field (JArr (module_names value)), csv_field latitude,
                csv_field longitude, csv_field (altitude value), csv_field (city value),
                csv_field (full_modules value)]
               w))"

text \<open>Mode \<^verbatim>\<open>'w'\<close> empties the file; the header row comes first.\<close>

definition save_netatmo_data_to_csv :: "ids \<Rightarrow> string \<Rightarrow> world \<Rightarrow> string result \<times> world" where
  "save_netatmo_data_to_csv ids csv_file w =
     (case write_stations csv_file ids
             (append_row csv_file
                [''MAC_address'', ''module_name'', ''latitude'', ''longitude'', ''altitude'',
                 ''city'', ''full_modules'']
                (w\<lparr>files := (files w)(csv_file := [])\<rparr>)) of
        (Inl e, w') \<Rightarrow> (Inl e, w')
      | (Inr u, w') \<Rightarrow> (Inr csv_file, w'))"

subsection \<open>\<^verbatim>\<open>load_device_and_module_ids_from_csv\<close>\<close>

text \<open>\<^verbatim>\<open>s.strip(chars)\<close> removes the characters of \<open>chars\<close> from both ends of \<open>s\<close>.\<close>

definition py_strip :: "string \<Rightarrow> string \<Rightarrow> string" where
  "py_strip chars s =
     rev (dropWhile (\<lambda>c. c \<in> set chars) (rev (dropWhile (\<lambda>c. c \<in> set chars) s)))"

text \<open>The characters of \<^verbatim>\<open>"[]'"\<close>: the two square brackets and the single quote.\<close>

definition brackets_and_quote :: string where
  "brackets_and_quote = [CHR ''['', CHR '']'', CHR 0x27]"

fun read_rows :: "csv_row list \<Rightarrow> (string \<times> string) list result" where
  "read_rows [] = Inr []"
| "read_rows (row # rows) =
     and_then (seq_index row 0) (\<lambda>device_id.
     and_then (seq_index row 1) (\<lambda>field.
     and_then (read_rows rows) (\<lambda>device_module_ids.
     Inr ((device_id, py_strip brackets_and_quote field) # device_module_ids))))"

text \<open>
  \<^verbatim>\<open>next(reader)\<close> skips the header and raises \<^verbatim>\<open>StopIteration\<close> when the file has no
  row at all.
\<close>

definition load_device_and_module_ids_from_csv :: "string \<Rightarrow> world \<Rightarrow> (string \<times> string) list result" where
  "load_device_and_module_ids_from_csv csv_file w =
     (case files w csv_file of
        [] \<Rightarrow> Inl StopIteration
      | header # rows \<Rightarrow> read_rows rows)"

subsection \<open>Writing and reading back\<close>

text \<open>
  The pair the loader returns for a station: the text of its key, and the text of its
  list of rain gauge modules without the brackets and quotes at its two ends. A location
  has to be a pair for the station to be written at all. \<open>mac_like\<close> are the strings of
  hexadecimal digits and colons, as hardware addresses are: the digits and the colon have
  the codes 48 to 58, the capital letters 65 to 70, the small letters 97 to 102.
\<close>

definition station_pair :: "json \<times> station_info \<Rightarrow> string \<times> string" where
  "station_pair kv =
     (csv_field (fst kv), py_strip brackets_and_quote (py_repr (JArr (module_names (snd kv)))))"

definition has_pair :: "json \<Rightarrow> bool" where
  "has_pair v = (case py_iter v of Inr xs \<Rightarrow> length xs = 2 | Inl e \<Rightarrow> False)"

definition mac_char :: "char \<Rightarrow> bool" where
  "mac_char c =
     ((48 \<le> (of_char c :: nat) \<and> (of_char c :: nat) \<le> 58) \<or>
      (65 \<le> (of_char c :: nat) \<and> (of_char c :: nat) \<le> 70) \<or>
      (97 \<le> (of_char c :: nat) \<and> (of_char c :: nat) \<le> 102))"

definition mac_like :: "string \<Rightarrow> bool" where
  "mac_like s = (s \<noteq> [] \<and> list_all mac_char s)"

lemma has_pair_unpack:
  assumes "has_pair v"
  shows "\<exists>a b. unpack_pair v = Inr (a, b)"
proof -
  from assms obtain xs where xs: "py_iter v = Inr xs" "length xs = 2"
    by (auto simp: has_pair_def split: sum.splits)
  then obtain a b where "xs = [a, b]"
    by (cases xs; cases "tl xs") auto
  with xs show ?thesis by (simp add: unpack_pair_def)
qed

lemma write_stations_rows:
  assumes "list_all (\<lambda>kv. has_pair (location (snd kv))) ids"
  shows "\<exists>rows. write_stations csv_file ids w = (Inr (), append_rows csv_file rows w) \<and>
           read_rows rows = Inr (map station_pair ids)"
  using assms
proof (induction ids arbitrary: w)
  case Nil
  have "write_stations csv_file [] w = (Inr (), append_rows csv_file [] w) \<and>
      read_rows [] = Inr (map station_pair [])"
    by simp
  then show ?case by blast
next
  case (Cons kv ids)
  obtain mac_address v where kv: "kv = (mac_address, v)" by (cases kv)
  from Cons.prems kv have "has_pair (location v)"
    and rest: "list_all (\<lambda>kv. has_pair (location (snd kv))) ids" by simp_all
  from has_pair_unpack [OF this(1)] obtain latitude longitude where
    u: "unpack_pair (location v) = Inr (latitude, longitude)" by blast
  let ?row = "[csv_field mac_address, csv_field (JArr (module_names v)), csv_field latitude,
                csv_field longitude, csv_field (altitude v), csv_field (city v),
                csv_field (full_modules v)]"
  from Cons.IH [OF rest, of "append_row csv_file ?row w"] obtain rows where
    w: "write_stations csv_file ids (append_row csv_file ?row w) =
        (Inr (), append_rows csv_file rows (append_row csv_file ?row w))" and
    r: "read_rows rows = Inr (map station_pair ids)"
    by blast
  have "write_stations csv_file (kv # ids) w = (Inr (), append_rows csv_file (?row # rows) w)"
    using kv u w by (simp add: append_rows_append_row)
  moreover have "read_rows (?row # rows) = Inr (map station_pair (kv # ids))"
    using r kv by (simp add: seq_index_def station_pair_def)
  ultimately show ?case by blast
qed

lemma repr_mac_char:
  assumes "mac_char c"
  shows "repr_char (CHR 0x27) c = [c]" and "c \<notin> set brackets_and_quote"
proof -
  from assms have ne: "c \<noteq> CHR 0x27" "c \<noteq> CHR 0x5C" "c \<noteq> CHR 0x09" "c \<noteq> CHR 0x0A"
    "c \<noteq> CHR 0x0D" "c \<noteq> CHR ''[''" "c \<noteq> CHR '']''"
    by (auto simp: mac_char_def)
  from assms have "printable c" by (auto simp: printable_def mac_char_def)
  with ne show "repr_char (CHR 0x27) c = [c]" by (simp add: repr_char_def)
  from ne show "c \<notin> set brackets_and_quote" by (simp add: brackets_and_quote_def)
qed

lemma repr_mac_like:
  assumes "mac_like m"
  shows "py_repr (JArr [JStr m]) = ''['' @ [CHR 0x27] @ m @ [CHR 0x27] @ '']''"
proof -
  from assms have chars: "\<forall>c\<in>set m. mac_char c"
    by (simp add: mac_like_def list_all_iff)
  then have "CHR 0x27 \<notin> set m" by (auto simp: mac_char_def)
  moreover from chars have "concat (map (repr_char (CHR 0x27)) m) = m"
    by (induction m) (simp_all add: repr_mac_char(1))
  ultimately show ?thesis by (simp add: repr_str_def Let_def)
qed

lemma strip_mac_like:
  assumes "mac_like m"
  shows "py_strip brackets_and_quote (''['' @ [CHR 0x27] @ m @ [CHR 0x27] @ '']'') = m"
proof -
  from assms have ne: "m \<noteq> []" and chars: "\<forall>c\<in>set m. c \<notin> set brackets_and_quote"
    by (auto simp: mac_like_def list_all_iff repr_mac_char(2))
  from ne chars have h: "hd m \<notin> set brackets_and_quote" and l: "last m \<notin> set brackets_and_quote"
    by simp_all
  let ?P = "\<lambda>c. c \<in> set brackets_and_quote"
  have front: "dropWhile ?P (''['' @ [CHR 0x27] @ m @ [CHR 0x27] @ '']'') = m @ [CHR 0x27] @ '']''"
    using ne h by (cases m) (simp_all add: brackets_and_quote_def)
  have "rev (m @ [CHR 0x27] @ '']'') = '']'' @ [CHR 0x27] @ rev m" by simp
  moreover have "dropWhile ?P ('']'' @ [CHR 0x27] @ rev m) = rev m"
    using ne l by (cases "rev m") (simp_all add: brackets_and_quote_def last_rev [symmetric] hd_rev)
  ultimately show ?thesis by (simp only: py_strip_def front rev_rev_ident)
qed

lemma strip_repr_mac_like:
  "mac_like m \<Longrightarrow> py_strip brackets_and_quote (py_repr (JArr [JStr m])) = m"
  by (simp only: repr_mac_like strip_mac_like)

text \<open>
  What the loader returns for a file the writer wrote. For every mapping whose locations
  are pairs, \<^verbatim>\<open>save_netatmo_data_to_csv\<close> succeeds, and
  \<^verbatim>\<open>load_device_and_module_ids_from_csv\<close> returns, station by station in the order of the
  mapping, the text of the key and the text of the module list without the brackets and
  quotes at its two ends. A station whose key is a string and which has exactly one rain
  gauge module with an address-like name comes back as the pair of key and module name.
\<close>

lemma station_directory_loaded:
  assumes "list_all (\<lambda>kv. has_pair (location (snd kv))) ids"
  shows "\<exists>w'. save_netatmo_data_to_csv ids csv_file w = (Inr csv_file, w') \<and>
           load_device_and_module_ids_from_csv csv_file w' = Inr (map station_pair ids) \<and>
           (\<forall>d v m. (JStr d, v) \<in> set ids \<and> module_names v = [JStr m] \<and> mac_like m \<longrightarrow>
              station_pair (JStr d, v) = (d, m))"
proof -
  let ?header = "[''MAC_address'', ''module_name'', ''latitude'', ''longitude'', ''altitude'',
                 ''city'', ''full_modules'']"
  let ?w1 = "append_row csv_file ?header (w\<lparr>files := (files w)(csv_file := [])\<rparr>)"
  from write_stations_rows [OF assms, of csv_file ?w1] obtain rows where
    w: "write_stations csv_file ids ?w1 = (Inr (), append_rows csv_file rows ?w1)" and
    r: "read_rows rows = Inr (map station_pair ids)"
    by blast
  have save: "save_netatmo_data_to_csv ids csv_file w = (Inr csv_file, append_rows csv_file rows ?w1)"
    by (simp add: save_netatmo_data_to_csv_def w)
  have "files (append_rows csv_file rows ?w1) csv_file = ?header # rows"
    by (simp add: append_rows_def append_row_def)
  with r have load: "load_device_and_module_ids_from_csv csv_file (append_rows csv_file rows ?w1) =
      Inr (map station_pair ids)"
    by (simp add: load_device_and_module_ids_from_csv_def)
  have "\<forall>d v m. (JStr d, v) \<in> set ids \<and> module_names v = [JStr m] \<and> mac_like m \<longrightarrow>
      station_pair (JStr d, v) = (d, m)"
    by (simp add: station_pair_def strip_repr_mac_like del: py_repr.simps)
  with save load show ?thesis by blast
qed

text \<open>
  Three stations: one with a single rain gauge, one with two, one with none.
  \<open>without_punctuation\<close> removes every bracket and quote of a string, as the comment at
  the call of \<^verbatim>\<open>strip\<close> says the loader does.
\<close>

definition example_ids :: ids where
  "example_ids =
     [(JStr ''70:ee:50:00:00:01'',
       \<lparr>module_names = [JStr ''02:00:00:00:00:01''], location = JArr [JInt 9, JInt 48],
        altitude = JInt 300, city = JStr ''no city'',
        full_modules = JArr [JStr ''02:00:00:00:00:01'', JStr ''05:00:00:00:00:01'']\<rparr>),
      (JStr ''70:ee:50:00:00:02'',
       \<lparr>module_names = [JStr ''02:00:00:00:00:02'', JStr ''02:00:00:00:00:03''],
        location = JArr [JInt 9, JInt 48], altitude = JInt 305, city = JStr ''Ulm'',
        full_modules = JArr [JStr ''02:00:00:00:00:02'', JStr ''02:00:00:00:00:03'']\<rparr>),
      (JStr ''70:ee:50:00:00:03'',
       \<lparr>module_names = [], location = JArr [JInt 9, JInt 48], altitude = JInt 310,
        city = JStr ''Ulm'', full_modules = JArr []\<rparr>)]"

definition without_punctuation :: "string \<Rightarrow> string" where
  "without_punctuation s = filter (\<lambda>c. c \<notin> set brackets_and_quote) s"

lemma example_ids_pairs: "list_all (\<lambda>kv. has_pair (location (snd kv))) example_ids"
  by (simp add: example_ids_def has_pair_def)

lemma example_ids_loaded:
  "map station_pair example_ids =
     [(''70:ee:50:00:00:01'', ''02:00:00:00:00:01''),
      (''70:ee:50:00:00:02'', ''02:00:00:00:00:02'' @ [CHR 0x27] @ '', '' @ [CHR 0x27] @
         ''02:00:00:00:00:03''),
      (''70:ee:50:00:00:03'', [])]"
  by code_simp

lemma example_field_without_punctuation:
  "without_punctuation
     (csv_field (JArr [JStr ''02:00:00:00:00:02'', JStr ''02:00:00:00:00:03''])) =
     ''02:00:00:00:00:02, 02:00:00:00:00:03''"
  by code_simp

text \<open>
  C9 does not hold of the code. \<^verbatim>\<open>strip("[]'")\<close> removes brackets and quotes at the two
  ends of the field only, where its comment says \<^verbatim>\<open>Remove square brackets and single quotes\<close>.
  The station with two rain gauges is loaded with a module identifier that still has
  the quotes between the two names: it is neither of the two identifiers written, nor the
  field without its brackets and quotes. The station without a rain gauge is loaded with
  the empty string for a module identifier. Only the station with one rain gauge comes
  back as the pair that was written.
\<close>

theorem station_directory_two_gauges:
  "fst (save_netatmo_data_to_csv example_ids ''stations.csv'' initial_world) =
     Inr ''stations.csv'' \<and>
   load_device_and_module_ids_from_csv ''stations.csv''
     (snd (save_netatmo_data_to_csv example_ids ''stations.csv'' initial_world)) =
     Inr [(''70:ee:50:00:00:01'', ''02:00:00:00:00:01''),
          (''70:ee:50:00:00:02'', ''02:00:00:00:00:02'' @ [CHR 0x27] @ '', '' @ [CHR 0x27] @
             ''02:00:00:00:00:03''),
          (''70:ee:50:00:00:03'', [])] \<and>
   without_punctuation
     (csv_field (JArr [JStr ''02:00:00:00:00:02'', JStr ''02:00:00:00:00:03''])) =
     ''02:00:00:00:00:02, 02:00:00:00:00:03''"
proof -
  from station_directory_loaded [OF example_ids_pairs, of "''stations.csv''" initial_world]
  obtain w' where "save_netatmo_data_to_csv example_ids ''stations.csv'' initial_world =
        (Inr ''stations.csv'', w')"
    "load_device_and_module_ids_from_csv ''stations.csv'' w' = Inr (map station_pair example_ids)"
    by blast
  then show ?thesis
    by (simp only: fst_conv snd_conv example_ids_loaded example_field_without_punctuation
        simp_thms)
qed

section \<open>\<^verbatim>\<open>convert_to_unix_timestamp\<close>\<close>

subsection \<open>\<^verbatim>\<open>strptime\<close> for the two formats\<close>

text \<open>
  \<^verbatim>\<open>datetime.strptime\<close> turns a format into a regular expression and matches it at the
  start of the string, trying the alternatives of each directive in order:
  \<^verbatim>\<open>%Y\<close> is four digits, \<^verbatim>\<open>%m\<close> is \<^verbatim>\<open>1[0-2]|0[1-9]|[1-9]\<close>, \<^verbatim>\<open>%d\<close> is
  \<^verbatim>\<open>3[0-1]|[1-2]\d|0[1-9]|[1-9]| [1-9]\<close>, \<^verbatim>\<open>%H\<close> is \<^verbatim>\<open>2[0-3]|[0-1]\d|\d\<close> and \<^verbatim>\<open>%M\<close> is
  \<^verbatim>\<open>[0-5]\d|\d\<close>. A directive is modelled by the list of its possible matches, each a value
  and the rest of the string, in the order in which the matcher tries them; the first
  match of the whole expression counts. No match, text left over after the match, and a
  date that does not exist are each a \<^verbatim>\<open>ValueError\<close>.
\<close>

definition between :: "char \<Rightarrow> char \<Rightarrow> char \<Rightarrow> bool" where
  "between lo hi c = ((of_char lo :: nat) \<le> of_char c \<and> (of_char c :: nat) \<le> of_char hi)"

definition is_digit :: "char \<Rightarrow> bool" where
  "is_digit c = between (CHR ''0'') (CHR ''9'') c"

definition digit_value :: "char \<Rightarrow> int" where
  "digit_value c = int (of_char c) - 48"

definition match1 :: "(char \<Rightarrow> bool) \<Rightarrow> string \<Rightarrow> (int \<times> string) list" where
  "match1 p s =
     (case s of a # rest \<Rightarrow> if p a then [(digit_value a, rest)] else [] | _ \<Rightarrow> [])"

definition match2 :: "(char \<Rightarrow> bool) \<Rightarrow> (char \<Rightarrow> bool) \<Rightarrow> string \<Rightarrow> (int \<times> string) list" where
  "match2 p q s =
     (case s of
        a # b # rest \<Rightarrow> if p a \<and> q b then [(10 * digit_value a + digit_value b, rest)] else []
      | _ \<Rightarrow> [])"

definition group_Y :: "string \<Rightarrow> (int \<times> string) list" where
  "group_Y s =
     (case s of
        a # b # c # d # rest \<Rightarrow>
          if is_digit a \<and> is_digit b \<and> is_digit c \<and> is_digit d
          then [(1000 * digit_value a + 100 * digit_value b + 10 * digit_value c + digit_value d,
                 rest)]
          else []
      | _ \<Rightarrow> [])"

definition group_m :: "string \<Rightarrow> (int \<times> string) list" where
  "group_m s =
     match2 (\<lambda>c. c = CHR ''1'') (between (CHR ''0'') (CHR ''2'')) s @
     match2 (\<lambda>c. c = CHR ''0'') (between (CHR ''1'') (CHR ''9'')) s @
     match1 (between (CHR ''1'') (CHR ''9'')) s"

definition group_d :: "string \<Rightarrow> (int \<times> string) list" where
  "group_d s =
     match2 (\<lambda>c. c = CHR ''3'') (between (CHR ''0'') (CHR ''1'')) s @
     match2 (between (CHR ''1'') (CHR ''2'')) is_digit s @
     match2 (\<lambda>c. c = CHR ''0'') (between (CHR ''1'') (CHR ''9'')) s @
     match1 (between (CHR ''1'') (CHR ''9'')) s @
     (case s of
        a # b # rest \<Rightarrow>
          if a = CHR '' '' \<and> between (CHR ''1'') (CHR ''9'') b then [(digit_value b, rest)] else []
      | _ \<Rightarrow> [])"

definition group_H :: "string \<Rightarrow> (int \<times> string) list" where
  "group_H s =
     match2 (\<lambda>c. c = CHR ''2'') (between (CHR ''0'') (CHR ''3'')) s @
     match2 (between (CHR ''0'') (CHR ''1'')) is_digit s @
     match1 is_digit s"

definition group_M :: "string \<Rightarrow> (int \<times> string) list" where
  "group_M s = match2 (between (CHR ''0'') (CHR ''5'')) is_digit s @ match1 is_digit s"

definition leap_year :: "int \<Rightarrow> bool" where
  "leap_year y = (y mod 4 = 0 \<and> (y mod 100 \<noteq> 0 \<or> y mod 400 = 0))"

definition days_in_month :: "int \<Rightarrow> int \<Rightarrow> int" where
  "days_in_month y m =
     (if m = 2 then (if leap_year y then 29 else 28)
      else if m = 4 \<or> m = 6 \<or> m = 9 \<or> m = 11 then 30
      else 31)"

definition strptime_Ymd :: "string \<Rightarrow> datetime result" where
  "strptime_Ymd s =
     (case [(y, m, d, r3). (y, r1) \<leftarrow> group_Y s, (m, r2) \<leftarrow> group_m r1, (d, r3) \<leftarrow> group_d r2] of
        [] \<Rightarrow> Inl ValueError
      | (y, m, d, rest) # others \<Rightarrow>
          if rest \<noteq> [] then Inl ValueError
          else if 1 \<le> y \<and> d \<le> days_in_month y m
          then Inr \<lparr>year = y, month = m, day = d, hour = 0, minute = 0, second = 0\<rparr>
          else Inl ValueError)"

definition strptime_HM :: "string \<Rightarrow> datetime result" where
  "strptime_HM s =
     (case [(h, mi, r2). (h, r1) \<leftarrow> group_H s, (mi, r2) \<leftarrow> group_M r1] of
        [] \<Rightarrow> Inl ValueError
      | (h, mi, rest) # others \<Rightarrow>
          if rest \<noteq> [] then Inl ValueError
          else Inr \<lparr>year = 1900, month = 1, day = 1, hour = h, minute = mi, second = 0\<rparr>)"

subsection \<open>The function\<close>

text \<open>
  \<^verbatim>\<open>datetime_obj.timestamp()\<close> reads a date without time zone as local time, so its value
  depends on the zone of the machine: it is the parameter \<open>timestamp\<close>. The handler
  \<^verbatim>\<open>except ValueError\<close> prints the message and returns \<^verbatim>\<open>None\<close>; any other exception
  leaves the function. \<open>utc_timestamp\<close> is \<open>timestamp\<close> on a machine whose zone is UTC;
  it looks at the local time one day earlier too, and so raises \<^verbatim>\<open>ValueError\<close> for a date
  on the first day of year 1.
\<close>

definition invalid_input_message :: string where
  "invalid_input_message =
     ''Error: Invalid input format. Please provide date in '' @ [CHR 0x27] @ ''yyyymmdd'' @
     [CHR 0x27] @ '' and time in '' @ [CHR 0x27] @ ''hhmm'' @ [CHR 0x27] @ '' format.''"

definition convert_to_unix_timestamp ::
  "(datetime \<Rightarrow> int result) \<Rightarrow> string \<Rightarrow> string \<Rightarrow> world \<Rightarrow> int option result \<times> world" where
  "convert_to_unix_timestamp timestamp date_string time_string w =
     (case
        and_then (strptime_Ymd date_string) (\<lambda>date_obj.
        and_then (strptime_HM time_string) (\<lambda>time_obj.
        timestamp
          \<lparr>year = year date_obj, month = month date_obj, day = day date_obj,
           hour = hour time_obj, minute = minute time_obj, second = 0\<rparr>))
      of
        Inr t \<Rightarrow> (Inr (Some t), w)
      | Inl ValueError \<Rightarrow> (Inr None, w\<lparr>stdout := stdout w @ [invalid_input_message]\<rparr>)
      | Inl e \<Rightarrow> (Inl e, w))"

definition utc_timestamp :: "datetime \<Rightarrow> int result" where
  "utc_timestamp dt =
     (let t = days_from_civil (year dt) (month dt) (day dt) * 86400 + hour dt * 3600 +
              minute dt * 60 + second dt
      in if t - 86400 < - 62135596800 then Inl ValueError else Inr t)"

lemma strptime_examples:
  "strptime_Ymd ''20230115'' =
     Inr \<lparr>year = 2023, month = 1, day = 15, hour = 0, minute = 0, second = 0\<rparr>"
  "strptime_HM ''1230'' =
     Inr \<lparr>year = 1900, month = 1, day = 1, hour = 12, minute = 30, second = 0\<rparr>"
  "strptime_Ymd ''abcd'' = Inl ValueError"
  by code_simp+


lemma strptime_Ymd_errors: "strptime_Ymd s = Inl e \<Longrightarrow> e = ValueError"
  by (auto simp: strptime_Ymd_def split: list.splits if_splits prod.splits)

lemma strptime_HM_errors: "strptime_HM s = Inl e \<Longrightarrow> e = ValueError"
  by (auto simp: strptime_HM_def split: list.splits if_splits prod.splits)

text \<open>
  C7. For \<^verbatim>\<open>"20230115"\<close> and \<^verbatim>\<open>"1230"\<close> the function returns the timestamp the machine
  gives to 2023-01-15 12:30:00 in its local time. Whenever one of the two strings does not
  parse, it prints the message and returns \<^verbatim>\<open>None\<close>, raising nothing; \<^verbatim>\<open>"abcd"\<close> is such
  a date string.
\<close>

theorem convert_to_unix_timestamp_cases:
  "(timestamp \<lparr>year = 2023, month = 1, day = 15, hour = 12, minute = 30, second = 0\<rparr> = Inr t \<longrightarrow>
      convert_to_unix_timestamp timestamp ''20230115'' ''1230'' w = (Inr (Some t), w)) \<and>
   (strptime_Ymd date_string = Inl ValueError \<or> strptime_HM time_string = Inl ValueError \<longrightarrow>
      convert_to_unix_timestamp timestamp date_string time_string w =
        (Inr None, w\<lparr>stdout := stdout w @ [invalid_input_message]\<rparr>)) \<and>
   strptime_Ymd ''abcd'' = Inl ValueError"
proof (intro conjI impI)
  assume "timestamp \<lparr>year = 2023, month = 1, day = 15, hour = 12, minute = 30, second = 0\<rparr> = Inr t"
  then show "convert_to_unix_timestamp timestamp ''20230115'' ''1230'' w = (Inr (Some t), w)"
    by (simp add: convert_to_unix_timestamp_def strptime_examples)
next
  assume "strptime_Ymd date_string = Inl ValueError \<or> strptime_HM time_string = Inl ValueError"
  then show "convert_to_unix_timestamp timestamp date_string time_string w =
        (Inr None, w\<lparr>stdout := stdout w @ [invalid_input_message]\<rparr>)"
  proof
    assume "strptime_Ymd date_string = Inl ValueError"
    then show ?thesis by (simp add: convert_to_unix_timestamp_def)
  next
    assume t: "strptime_HM time_string = Inl ValueError"
    show ?thesis
    proof (cases "strptime_Ymd date_string")
      case (Inl e)
      then have "e = ValueError" by (rule strptime_Ymd_errors)
      with Inl show ?thesis by (simp add: convert_to_unix_timestamp_def)
    next
      case (Inr d)
      with t show ?thesis by (simp add: convert_to_unix_timestamp_def)
    qed
  qed
next
  show "strptime_Ymd ''abcd'' = Inl ValueError" by (rule strptime_examples)
qed

lemma utc_example:
  "utc_timestamp \<lparr>year = 2023, month = 1, day = 15, hour = 12, minute = 30, second = 0\<rparr> =
     Inr 1673785800"
  by code_simp

theorem convert_to_unix_timestamp_cases_witness:
  "utc_timestamp \<lparr>year = 2023, month = 1, day = 15, hour = 12, minute = 30, second = 0\<rparr> =
     Inr 1673785800 \<and>
   convert_to_unix_timestamp utc_timestamp ''20230115'' ''1230'' initial_world =
     (Inr (Some 1673785800), initial_world) \<and>
   strptime_Ymd ''abcd'' = Inl ValueError \<and>
   convert_to_unix_timestamp utc_timestamp ''abcd'' ''1230'' initial_world =
     (Inr None, initial_world\<lparr>stdout := stdout initial_world @ [invalid_input_message]\<rparr>)"
proof -
  note inst = convert_to_unix_timestamp_cases [where timestamp = utc_timestamp and t = 1673785800
      and w = initial_world and date_string = "''abcd''" and time_string = "''1230''"]
  from inst utc_example
  have a: "convert_to_unix_timestamp utc_timestamp ''20230115'' ''1230'' initial_world =
     (Inr (Some 1673785800), initial_world)"
    by blast
  from inst have b: "strptime_Ymd ''abcd'' = Inl ValueError" by blast
  with inst have "convert_to_unix_timestamp utc_timestamp ''abcd'' ''1230'' initial_world =
     (Inr None, initial_world\<lparr>stdout := stdout initial_world @ [invalid_input_message]\<rparr>)"
    by blast
  with utc_example a b show ?thesis by blast
qed

end
